theory Spec2Isabelle
  imports Main
begin

section \<open>Strings\<close>

text \<open>
  A JavaScript string is a sequence of UTF-16 code units. A code unit is modelled as a
  natural number below \<open>0x10000\<close>; a code point as a natural number below \<open>0x110000\<close>.
  \<open>str\<close> writes the code units of an ASCII literal.
\<close>

type_synonym js_string = "nat list"

definition str :: "string \<Rightarrow> js_string" where
  "str s = map of_char s"

definition truthy :: "js_string option \<Rightarrow> bool" where
  \<comment> \<open>truthiness of a value of type \<open>string | null | undefined\<close>: the empty string is falsy\<close>
  "truthy v = (case v of None \<Rightarrow> False | Some s \<Rightarrow> s \<noteq> [])"

definition isLeadingSurrogate :: "nat \<Rightarrow> bool" where
  "isLeadingSurrogate u = (0xD800 \<le> u \<and> u \<le> 0xDBFF)"

definition isTrailingSurrogate :: "nat \<Rightarrow> bool" where
  "isTrailingSurrogate u = (0xDC00 \<le> u \<and> u \<le> 0xDFFF)"

definition isSurrogate :: "nat \<Rightarrow> bool" where
  "isSurrogate u = (0xD800 \<le> u \<and> u \<le> 0xDFFF)"

definition isScalar :: "nat \<Rightarrow> bool" where
  \<comment> \<open>a Unicode scalar value: a code point that is not a surrogate\<close>
  "isScalar c = (c < 0x110000 \<and> \<not> isSurrogate c)"

text \<open>
  Reading a string by code points, as \<open>toLocaleLowerCase\<close> and a regular expression with
  the \<open>u\<close> flag do: a leading surrogate followed by a trailing surrogate is one code point,
  every other code unit (an unpaired surrogate too) is a code point of its own.
\<close>

fun StringToCodePoints :: "js_string \<Rightarrow> nat list" where
  "StringToCodePoints [] = []"
| "StringToCodePoints [u] = [u]"
| "StringToCodePoints (u # v # rest) =
     (if isLeadingSurrogate u \<and> isTrailingSurrogate v
      then (0x10000 + (u - 0xD800) * 0x400 + (v - 0xDC00)) # StringToCodePoints rest
      else u # StringToCodePoints (v # rest))"

definition UTF16EncodeCodePoint :: "nat \<Rightarrow> js_string" where
  "UTF16EncodeCodePoint cp =
     (if cp \<le> 0xFFFF then [cp]
      else [(cp - 0x10000) div 0x400 + 0xD800, (cp - 0x10000) mod 0x400 + 0xDC00])"

definition CodePointsToString :: "nat list \<Rightarrow> js_string" where
  "CodePointsToString cps = concat (map UTF16EncodeCodePoint cps)"

definition well_formed :: "js_string \<Rightarrow> bool" where
  \<comment> \<open>a well-formed UTF-16 string: 16-bit code units, no unpaired surrogate\<close>
  "well_formed s = ((\<forall>u \<in> set s. u < 0x10000) \<and> (\<forall>c \<in> set (StringToCodePoints s). \<not> isSurrogate c))"

section \<open>The Unicode tables of the platform\<close>

text \<open>
  \<open>isWhiteSpace\<close> is the set that \<open>String.prototype.trim\<close> removes and that \<open>\s\<close>
  matches: the ECMAScript WhiteSpace and LineTerminator code points. All of them are in the
  Basic Multilingual Plane, so the set is the same read by code units or by code points.
\<close>

definition isWhiteSpace :: "nat \<Rightarrow> bool" where
  "isWhiteSpace c =
     (c = 0x09 \<or> c = 0x0A \<or> c = 0x0B \<or> c = 0x0C \<or> c = 0x0D \<or> c = 0x20 \<or> c = 0xA0
      \<or> c = 0x1680 \<or> (0x2000 \<le> c \<and> c \<le> 0x200A) \<or> c = 0x2028 \<or> c = 0x2029
      \<or> c = 0x202F \<or> c = 0x205F \<or> c = 0x3000 \<or> c = 0xFEFF)"

text \<open>
  The general categories behind \<open>\p{L}\<close> and \<open>\p{N}\<close> and the lowercase mapping of the
  host locale belong to the JavaScript engine, not to the repository; they are parameters.
  \<open>lowercase U pre c suf\<close> is what the code point \<open>c\<close> becomes when it stands
  between \<open>pre\<close> and \<open>suf\<close>: the mapping may depend on the context (final sigma) and
  may produce several code points.
\<close>

record unicode =
  Letter :: "nat \<Rightarrow> bool"
  Number :: "nat \<Rightarrow> bool"
  lowercase :: "nat list \<Rightarrow> nat \<Rightarrow> nat list \<Rightarrow> nat list"

fun toLowercase :: "unicode \<Rightarrow> nat list \<Rightarrow> nat list \<Rightarrow> nat list" where
  "toLowercase U pre [] = []"
| "toLowercase U pre (c # suf) = lowercase U pre c suf @ toLowercase U (pre @ [c]) suf"

text \<open>
  Three facts of the Unicode Character Database that the tables of an engine satisfy:
  a letter or a number is a scalar value and is not white space; lowercasing scalar values
  gives scalar values; a letter or a number that lowercasing produces is itself left
  alone by lowercasing, wherever it stands.
\<close>

definition unicode_ok :: "unicode \<Rightarrow> bool" where
  "unicode_ok U =
     ((\<forall>c. Letter U c \<or> Number U c \<longrightarrow> isScalar c \<and> \<not> isWhiteSpace c)
      \<and> (\<forall>pre c suf. isScalar c \<longrightarrow> (\<forall>d \<in> set (lowercase U pre c suf). isScalar d))
      \<and> (\<forall>pre c suf d. d \<in> set (lowercase U pre c suf) \<and> (Letter U d \<or> Number U d)
            \<longrightarrow> (\<forall>pre' suf'. lowercase U pre' d suf' = [d])))"

section \<open>Answer normalizer\<close>

definition trim :: "js_string \<Rightarrow> js_string" where
  "trim s = rev (dropWhile isWhiteSpace (rev (dropWhile isWhiteSpace s)))"

definition toLocaleLowerCase :: "unicode \<Rightarrow> js_string \<Rightarrow> js_string" where
  "toLocaleLowerCase U s = CodePointsToString (toLowercase U [] (StringToCodePoints s))"

definition replace_whitespace :: "js_string \<Rightarrow> js_string" where
  \<comment> \<open>\<open>.replace(/\s+/g, "")\<close>: every run of white space is deleted\<close>
  "replace_whitespace s = filter (\<lambda>u. \<not> isWhiteSpace u) s"

definition replace_non_alnum :: "unicode \<Rightarrow> js_string \<Rightarrow> js_string" where
  \<comment> \<open>\<open>.replace(/[^\p{L}\p{N}]/gu, "")\<close>: read by code points, keep letters and numbers\<close>
  "replace_non_alnum U s =
     CodePointsToString (filter (\<lambda>c. Letter U c \<or> Number U c) (StringToCodePoints s))"

definition normalizeAnswer :: "unicode \<Rightarrow> js_string \<Rightarrow> js_string" where
  "normalizeAnswer U v =
     replace_non_alnum U (replace_whitespace (toLocaleLowerCase U (trim v)))"

text \<open>
  A fragment of the Unicode tables, exact on the code points it lists: the ASCII letters
  and digits and the Deseret letters \<open>U+10400..U+1044F\<close>, whose capitals
  \<open>U+10400..U+10427\<close> have the lowercase \<open>U+10428..U+1044F\<close>.
\<close>

definition fragment :: unicode where
  "fragment =
     \<lparr> Letter = (\<lambda>c. (0x41 \<le> c \<and> c \<le> 0x5A) \<or> (0x61 \<le> c \<and> c \<le> 0x7A)
                      \<or> (0x10400 \<le> c \<and> c \<le> 0x1044F)),
       Number = (\<lambda>c. 0x30 \<le> c \<and> c \<le> 0x39),
       lowercase = (\<lambda>pre c suf.
          if 0x41 \<le> c \<and> c \<le> 0x5A then [c + 0x20]
          else if 0x10400 \<le> c \<and> c \<le> 0x10427 then [c + 0x28]
          else [c]) \<rparr>"

section \<open>Tables\<close>

text \<open>
  The three tables of \<open>db/tables.ts\<close>. A text column is a string, an optional column an
  \<open>option\<close> (\<open>None\<close> is SQL \<open>NULL\<close>), a date column the number of milliseconds of the
  \<open>Date\<close>, a number column an integer. A table is the list of its rows.
\<close>

record puzzle =
  p_id :: js_string
  p_userId :: "js_string option"
  p_emojiSequence :: js_string
  p_answer :: js_string
  p_hint :: "js_string option"
  p_category :: "js_string option"
  p_difficulty :: "js_string option"
  p_language :: "js_string option"
  p_isSystem :: bool
  p_isActive :: bool
  p_createdAt :: int
  p_updatedAt :: int

record session =
  s_id :: js_string
  s_userId :: js_string
  s_mode :: "js_string option"
  s_createdAt :: int
  s_endedAt :: "int option"
  s_totalQuestions :: "int option"
  s_correctAnswers :: "int option"

record attempt =
  a_id :: js_string
  a_sessionId :: "js_string option"
  a_puzzleId :: js_string
  a_userId :: "js_string option"
  a_guessText :: "js_string option"
  a_isCorrect :: bool
  a_createdAt :: int

record database =
  EmojiPuzzles :: "puzzle list"
  EmojiPuzzleSessions :: "session list"
  EmojiPuzzleAttempts :: "attempt list"

datatype error_code = UNAUTHORIZED | NOT_FOUND | BAD_REQUEST | FORBIDDEN | CONSTRAINT_PRIMARYKEY

definition insert_values :: "('r \<Rightarrow> js_string) \<Rightarrow> 'r \<Rightarrow> 'r list \<Rightarrow> error_code + 'r list" where
  \<comment> \<open>\<open>db.insert(T).values(r)\<close>; the column \<open>id\<close> is the primary key of every table\<close>
  "insert_values key r rows =
     (if key r \<in> set (map key rows) then Inl CONSTRAINT_PRIMARYKEY else Inr (rows @ [r]))"

definition select_where :: "('r \<Rightarrow> bool) \<Rightarrow> 'r list \<Rightarrow> 'r list" where
  \<comment> \<open>\<open>db.select().from(T).where(w)\<close>\<close>
  "select_where w rows = filter w rows"

definition update_where :: "('r \<Rightarrow> 'r) \<Rightarrow> ('r \<Rightarrow> bool) \<Rightarrow> 'r list \<Rightarrow> 'r list" where
  \<comment> \<open>\<open>db.update(T).set(f).where(w)\<close>\<close>
  "update_where f w rows = map (\<lambda>r. if w r then f r else r) rows"

definition limit :: "int \<Rightarrow> 'r list \<Rightarrow> 'r list" where
  \<comment> \<open>SQL \<open>LIMIT n\<close>; a negative \<open>n\<close> is no limit\<close>
  "limit n rows = (if n < 0 then rows else take (nat n) rows)"

definition offset :: "int \<Rightarrow> 'r list \<Rightarrow> 'r list" where
  \<comment> \<open>SQL \<open>OFFSET n\<close>; a negative \<open>n\<close> skips nothing\<close>
  "offset n rows = drop (nat n) rows"

definition unique_ids :: "database \<Rightarrow> bool" where
  \<comment> \<open>the primary-key constraint of the puzzle and session tables\<close>
  "unique_ids db =
     (distinct (map p_id (EmojiPuzzles db)) \<and> distinct (map s_id (EmojiPuzzleSessions db)))"

section \<open>Actions\<close>

record user =
  user_id :: js_string

type_synonym "context" = "user option"

datatype difficulty = easy | medium | hard

datatype mode = practice | timed

fun difficulty_text :: "difficulty \<Rightarrow> js_string" where
  "difficulty_text easy = str ''easy''"
| "difficulty_text medium = str ''medium''"
| "difficulty_text hard = str ''hard''"

fun mode_text :: "mode \<Rightarrow> js_string" where
  "mode_text practice = str ''practice''"
| "mode_text timed = str ''timed''"

definition requireUser :: "context \<Rightarrow> error_code + user" where
  "requireUser ctx = (case ctx of None \<Rightarrow> Inl UNAUTHORIZED | Some u \<Rightarrow> Inr u)"

definition coalesce :: "'a option \<Rightarrow> 'a option \<Rightarrow> 'a option" where
  \<comment> \<open>the operator \<open>??\<close>\<close>
  "coalesce a b = (case a of None \<Rightarrow> b | Some v \<Rightarrow> Some v)"

text \<open>
  Every handler takes the value of its one \<open>new Date()\<close> as \<open>now\<close> and the value of its
  \<open>crypto.randomUUID()\<close> as \<open>uuid\<close>, and returns what the action returns or throws,
  together with the database it leaves. The input of a handler has passed the schema of
  its action; an optional field is an \<open>option\<close>.
\<close>

subsection \<open>createPuzzle\<close>

record createPuzzle_input =
  c_emojiSequence :: js_string
  c_answer :: js_string
  c_hint :: "js_string option"
  c_category :: "js_string option"
  c_difficulty :: "difficulty option"
  c_language :: "js_string option"

definition createPuzzle ::
  "int \<Rightarrow> js_string \<Rightarrow> createPuzzle_input \<Rightarrow> context \<Rightarrow> database \<Rightarrow> (error_code + puzzle) \<times> database" where
  "createPuzzle now uuid inp ctx db =
     (case requireUser ctx of
        Inl e \<Rightarrow> (Inl e, db)
      | Inr usr \<Rightarrow>
          let puzzle = \<lparr> p_id = uuid, p_userId = Some (user_id usr),
                          p_emojiSequence = c_emojiSequence inp, p_answer = c_answer inp,
                          p_hint = c_hint inp, p_category = c_category inp,
                          p_difficulty = map_option difficulty_text (c_difficulty inp),
                          p_language = c_language inp,
                          p_isSystem = False, p_isActive = True,
                          p_createdAt = now, p_updatedAt = now \<rparr>
          in (case insert_values p_id puzzle (EmojiPuzzles db) of
                Inl e \<Rightarrow> (Inl e, db)
              | Inr rows \<Rightarrow> (Inr puzzle, db\<lparr>EmojiPuzzles := rows\<rparr>)))"

subsection \<open>updatePuzzle\<close>

record updatePuzzle_input =
  u_id :: js_string
  u_emojiSequence :: "js_string option"
  u_answer :: "js_string option"
  u_hint :: "js_string option"
  u_category :: "js_string option"
  u_difficulty :: "difficulty option"
  u_language :: "js_string option"
  u_isActive :: "bool option"

text \<open>The object \<open>updates\<close>: a key is present when its field is \<open>Some\<close>.\<close>

record updates =
  upd_emojiSequence :: "js_string option"
  upd_answer :: "js_string option"
  upd_hint :: "js_string option"
  upd_category :: "js_string option"
  upd_difficulty :: "js_string option"
  upd_language :: "js_string option"
  upd_isActive :: "bool option"
  upd_updatedAt :: "int option"

definition present :: "'a option \<Rightarrow> nat" where
  "present v = (case v of None \<Rightarrow> 0 | Some _ \<Rightarrow> 1)"

definition keys_length :: "updates \<Rightarrow> nat" where
  \<comment> \<open>\<open>Object.keys(updates).length\<close>\<close>
  "keys_length upd =
     present (upd_emojiSequence upd) + present (upd_answer upd) + present (upd_hint upd)
     + present (upd_category upd) + present (upd_difficulty upd) + present (upd_language upd)
     + present (upd_isActive upd) + present (upd_updatedAt upd)"

definition set_updates :: "updates \<Rightarrow> puzzle \<Rightarrow> puzzle" where
  \<comment> \<open>\<open>{ ...puzzle, ...updates }\<close>, and what \<open>.set(updates)\<close> does to a row\<close>
  "set_updates upd p =
     p\<lparr> p_emojiSequence := (case upd_emojiSequence upd of None \<Rightarrow> p_emojiSequence p | Some v \<Rightarrow> v),
        p_answer := (case upd_answer upd of None \<Rightarrow> p_answer p | Some v \<Rightarrow> v),
        p_hint := (case upd_hint upd of None \<Rightarrow> p_hint p | Some v \<Rightarrow> Some v),
        p_category := (case upd_category upd of None \<Rightarrow> p_category p | Some v \<Rightarrow> Some v),
        p_difficulty := (case upd_difficulty upd of None \<Rightarrow> p_difficulty p | Some v \<Rightarrow> Some v),
        p_language := (case upd_language upd of None \<Rightarrow> p_language p | Some v \<Rightarrow> Some v),
        p_isActive := (case upd_isActive upd of None \<Rightarrow> p_isActive p | Some v \<Rightarrow> v),
        p_updatedAt := (case upd_updatedAt upd of None \<Rightarrow> p_updatedAt p | Some v \<Rightarrow> v) \<rparr>"

definition collect_updates :: "updatePuzzle_input \<Rightarrow> updates" where
  \<comment> \<open>the seven lines \<open>if (input.f !== undefined) updates.f = input.f\<close>\<close>
  "collect_updates inp =
     \<lparr> upd_emojiSequence = u_emojiSequence inp,
       upd_answer = u_answer inp,
       upd_hint = u_hint inp,
       upd_category = u_category inp,
       upd_difficulty = map_option difficulty_text (u_difficulty inp),
       upd_language = u_language inp,
       upd_isActive = u_isActive inp,
       upd_updatedAt = None \<rparr>"

definition updatePuzzle ::
  "int \<Rightarrow> updatePuzzle_input \<Rightarrow> context \<Rightarrow> database \<Rightarrow> (error_code + puzzle) \<times> database" where
  "updatePuzzle now inp ctx db =
     (case requireUser ctx of
        Inl e \<Rightarrow> (Inl e, db)
      | Inr usr \<Rightarrow>
          (case select_where (\<lambda>r. p_id r = u_id inp \<and> p_userId r = Some (user_id usr))
                  (EmojiPuzzles db) of
             [] \<Rightarrow> (Inl NOT_FOUND, db)
           | puzzle # _ \<Rightarrow>
               let upd = collect_updates inp
               in if keys_length upd = 0 then (Inl BAD_REQUEST, db)
                  else
                    let upd = upd\<lparr>upd_updatedAt := Some now\<rparr>
                    in (Inr (set_updates upd puzzle),
                        db\<lparr>EmojiPuzzles :=
                             update_where (set_updates upd) (\<lambda>r. p_id r = p_id puzzle)
                               (EmojiPuzzles db)\<rparr>)))"

subsection \<open>archivePuzzle\<close>

definition archivePuzzle ::
  "int \<Rightarrow> js_string \<Rightarrow> context \<Rightarrow> database \<Rightarrow> (error_code + js_string) \<times> database" where
  "archivePuzzle now inp_id ctx db =
     (case requireUser ctx of
        Inl e \<Rightarrow> (Inl e, db)
      | Inr usr \<Rightarrow>
          (case select_where (\<lambda>r. p_id r = inp_id \<and> p_userId r = Some (user_id usr))
                  (EmojiPuzzles db) of
             [] \<Rightarrow> (Inl NOT_FOUND, db)
           | puzzle # _ \<Rightarrow>
               if \<not> p_isActive puzzle then (Inl NOT_FOUND, db)
               else (Inr (p_id puzzle),
                     db\<lparr>EmojiPuzzles :=
                          update_where (\<lambda>r. r\<lparr>p_isActive := False, p_updatedAt := now\<rparr>)
                            (\<lambda>r. p_id r = p_id puzzle) (EmojiPuzzles db)\<rparr>)))"

subsection \<open>listMyPuzzles\<close>

record listMyPuzzles_input =
  l_includeInactive :: "bool option"
  l_category :: "js_string option"
  l_difficulty :: "difficulty option"
  l_page :: int
  l_pageSize :: int

record listMyPuzzles_data =
  d_items :: "puzzle list"
  d_total :: nat
  d_page :: int

definition list_where :: "listMyPuzzles_input \<Rightarrow> user \<Rightarrow> puzzle \<Rightarrow> bool" where
  \<comment> \<open>the condition \<open>where\<close>, built up by the three \<open>if\<close>s\<close>
  "list_where inp usr =
     (let w = (\<lambda>r. p_userId r = Some (user_id usr));
          w = (if l_includeInactive inp \<noteq> Some True
               then (\<lambda>r. w r \<and> p_isActive r = True) else w);
          w = (if truthy (l_category inp)
               then (\<lambda>r. w r \<and> p_category r = l_category inp) else w);
          w = (case l_difficulty inp of
                 Some d \<Rightarrow> (\<lambda>r. w r \<and> p_difficulty r = Some (difficulty_text d))
               | None \<Rightarrow> w)
      in w)"

definition listMyPuzzles ::
  "listMyPuzzles_input \<Rightarrow> context \<Rightarrow> database \<Rightarrow> (error_code + listMyPuzzles_data) \<times> database" where
  "listMyPuzzles inp ctx db =
     (case requireUser ctx of
        Inl e \<Rightarrow> (Inl e, db)
      | Inr usr \<Rightarrow>
          let off = (l_page inp - 1) * l_pageSize inp;
              puzzles = limit (l_pageSize inp) (offset off
                          (sort_key p_createdAt
                             (select_where (list_where inp usr) (EmojiPuzzles db))))
          in (Inr \<lparr> d_items = puzzles, d_total = length puzzles, d_page = l_page inp \<rparr>, db))"

subsection \<open>startPuzzleSession\<close>

record startPuzzleSession_input =
  b_mode :: "mode option"
  b_totalQuestions :: "int option"

definition startPuzzleSession ::
  "int \<Rightarrow> js_string \<Rightarrow> startPuzzleSession_input \<Rightarrow> context \<Rightarrow> database
     \<Rightarrow> (error_code + session) \<times> database" where
  "startPuzzleSession now uuid inp ctx db =
     (case requireUser ctx of
        Inl e \<Rightarrow> (Inl e, db)
      | Inr usr \<Rightarrow>
          let session = \<lparr> s_id = uuid, s_userId = user_id usr,
                           s_mode = map_option mode_text (b_mode inp),
                           s_createdAt = now, s_endedAt = None,
                           s_totalQuestions = b_totalQuestions inp,
                           s_correctAnswers = None \<rparr>
          in (case insert_values s_id session (EmojiPuzzleSessions db) of
                Inl e \<Rightarrow> (Inl e, db)
              | Inr rows \<Rightarrow> (Inr session, db\<lparr>EmojiPuzzleSessions := rows\<rparr>)))"

subsection \<open>endPuzzleSession\<close>

record endPuzzleSession_input =
  e_sessionId :: js_string
  e_totalQuestions :: "int option"
  e_correctAnswers :: "int option"

definition exceeds :: "int option \<Rightarrow> int option \<Rightarrow> bool" where
  \<comment> \<open>the condition of the \<open>BAD_REQUEST\<close>: both counts given and correct above total\<close>
  "exceeds totalQuestions correctAnswers =
     (case totalQuestions of None \<Rightarrow> False
      | Some t \<Rightarrow> (case correctAnswers of None \<Rightarrow> False | Some c \<Rightarrow> c > t))"

definition endPuzzleSession ::
  "int \<Rightarrow> endPuzzleSession_input \<Rightarrow> context \<Rightarrow> database \<Rightarrow> (error_code + js_string) \<times> database" where
  "endPuzzleSession now inp ctx db =
     (case requireUser ctx of
        Inl e \<Rightarrow> (Inl e, db)
      | Inr usr \<Rightarrow>
          (case select_where (\<lambda>r. s_id r = e_sessionId inp \<and> s_userId r = user_id usr)
                  (EmojiPuzzleSessions db) of
             [] \<Rightarrow> (Inl NOT_FOUND, db)
           | session # _ \<Rightarrow>
               if exceeds (e_totalQuestions inp) (e_correctAnswers inp)
               then (Inl BAD_REQUEST, db)
               else (Inr (s_id session),
                     db\<lparr>EmojiPuzzleSessions :=
                          update_where
                            (\<lambda>r. r\<lparr> s_endedAt := Some now,
                                    s_totalQuestions :=
                                      coalesce (e_totalQuestions inp) (s_totalQuestions session),
                                    s_correctAnswers :=
                                      coalesce (e_correctAnswers inp) (s_correctAnswers session) \<rparr>)
                            (\<lambda>r. s_id r = s_id session) (EmojiPuzzleSessions db)\<rparr>)))"

subsection \<open>submitPuzzleAttempt\<close>

record submitPuzzleAttempt_input =
  g_puzzleId :: js_string
  g_sessionId :: "js_string option"
  g_guessText :: js_string

definition resolve_session :: "js_string option \<Rightarrow> user \<Rightarrow> database \<Rightarrow> error_code + js_string option" where
  \<comment> \<open>the block \<open>if (input.sessionId) { ... }\<close> that sets \<open>sessionId\<close>\<close>
  "resolve_session sid usr db =
     (if truthy sid
      then (case select_where (\<lambda>r. Some (s_id r) = sid \<and> s_userId r = user_id usr)
                    (EmojiPuzzleSessions db) of
              [] \<Rightarrow> Inl NOT_FOUND
            | session # _ \<Rightarrow> Inr (Some (s_id session)))
      else Inr None)"

definition submitPuzzleAttempt ::
  "unicode \<Rightarrow> int \<Rightarrow> js_string \<Rightarrow> submitPuzzleAttempt_input \<Rightarrow> context \<Rightarrow> database
     \<Rightarrow> (error_code + attempt) \<times> database" where
  "submitPuzzleAttempt U now uuid inp ctx db =
     (case requireUser ctx of
        Inl e \<Rightarrow> (Inl e, db)
      | Inr usr \<Rightarrow>
          (case select_where (\<lambda>r. p_id r = g_puzzleId inp) (EmojiPuzzles db) of
             [] \<Rightarrow> (Inl NOT_FOUND, db)
           | puzzle # _ \<Rightarrow>
               if \<not> p_isActive puzzle then (Inl NOT_FOUND, db)
               else if truthy (p_userId puzzle) \<and> p_userId puzzle \<noteq> Some (user_id usr)
               then (Inl FORBIDDEN, db)
               else
                 (case resolve_session (g_sessionId inp) usr db of
                    Inl e \<Rightarrow> (Inl e, db)
                  | Inr sessionId \<Rightarrow>
                      let isCorrect = (normalizeAnswer U (g_guessText inp)
                                         = normalizeAnswer U (p_answer puzzle));
                          attempt = \<lparr> a_id = uuid, a_sessionId = sessionId,
                                       a_puzzleId = p_id puzzle,
                                       a_userId = Some (user_id usr),
                                       a_guessText = Some (g_guessText inp),
                                       a_isCorrect = isCorrect, a_createdAt = now \<rparr>
                      in (case insert_values a_id attempt (EmojiPuzzleAttempts db) of
                            Inl e \<Rightarrow> (Inl e, db)
                          | Inr rows \<Rightarrow> (Inr attempt, db\<lparr>EmojiPuzzleAttempts := rows\<rparr>)))))"

subsection \<open>The object \<open>server\<close>\<close>

datatype action =
    CreatePuzzle createPuzzle_input
  | UpdatePuzzle updatePuzzle_input
  | ArchivePuzzle js_string
  | ListMyPuzzles listMyPuzzles_input
  | StartPuzzleSession startPuzzleSession_input
  | EndPuzzleSession endPuzzleSession_input
  | SubmitPuzzleAttempt submitPuzzleAttempt_input

datatype action_data =
    PuzzleData puzzle
  | IdData js_string
  | ListData listMyPuzzles_data
  | SessionData session
  | AttemptData attempt

definition returning :: "('a \<Rightarrow> action_data) \<Rightarrow> (error_code + 'a) \<times> database
    \<Rightarrow> (error_code + action_data) \<times> database" where
  "returning wrap r = (map_sum (\<lambda>e. e) wrap (fst r), snd r)"

fun server :: "unicode \<Rightarrow> int \<Rightarrow> js_string \<Rightarrow> action \<Rightarrow> context \<Rightarrow> database
    \<Rightarrow> (error_code + action_data) \<times> database" where
  "server U now uuid (CreatePuzzle inp) ctx db = returning PuzzleData (createPuzzle now uuid inp ctx db)"
| "server U now uuid (UpdatePuzzle inp) ctx db = returning PuzzleData (updatePuzzle now inp ctx db)"
| "server U now uuid (ArchivePuzzle inp) ctx db = returning IdData (archivePuzzle now inp ctx db)"
| "server U now uuid (ListMyPuzzles inp) ctx db = returning ListData (listMyPuzzles inp ctx db)"
| "server U now uuid (StartPuzzleSession inp) ctx db = returning SessionData (startPuzzleSession now uuid inp ctx db)"
| "server U now uuid (EndPuzzleSession inp) ctx db = returning IdData (endPuzzleSession now inp ctx db)"
| "server U now uuid (SubmitPuzzleAttempt inp) ctx db = returning AttemptData (submitPuzzleAttempt U now uuid inp ctx db)"

section \<open>The counts of a session\<close>

definition counts_ok :: "session \<Rightarrow> bool" where
  \<comment> \<open>when both counts are stored, correct answers do not exceed total questions\<close>
  "counts_ok s =
     (case s_totalQuestions s of None \<Rightarrow> True
      | Some t \<Rightarrow> (case s_correctAnswers s of None \<Rightarrow> True | Some c \<Rightarrow> c \<le> t))"

definition gives_one_count :: "action \<Rightarrow> bool" where
  \<comment> \<open>a request to end a session that gives exactly one of the two counts\<close>
  "gives_one_count act =
     (case act of
        EndPuzzleSession inp \<Rightarrow> (e_totalQuestions inp = None) \<noteq> (e_correctAnswers inp = None)
      | _ \<Rightarrow> False)"

section \<open>An example database\<close>

definition alice :: user where
  "alice = \<lparr> user_id = str ''alice'' \<rparr>"

definition bob :: user where
  "bob = \<lparr> user_id = str ''bob'' \<rparr>"

definition system_puzzle :: puzzle where
  "system_puzzle =
     \<lparr> p_id = str ''p0'', p_userId = None, p_emojiSequence = [0xD83D, 0xDE97],
       p_answer = str ''Car'', p_hint = None, p_category = None, p_difficulty = None,
       p_language = None, p_isSystem = True, p_isActive = True,
       p_createdAt = 100, p_updatedAt = 100 \<rparr>"

definition alice_puzzle :: puzzle where
  "alice_puzzle =
     \<lparr> p_id = str ''p1'', p_userId = Some (str ''alice''),
       p_emojiSequence = [0xD83D, 0xDE97, 0xD83D, 0xDCA8, 0xD83C, 0xDFC1],
       p_answer = str ''Fast and Furious'', p_hint = None, p_category = Some (str ''movie''),
       p_difficulty = Some (str ''easy''), p_language = None, p_isSystem = False,
       p_isActive = True, p_createdAt = 200, p_updatedAt = 200 \<rparr>"

definition archived_puzzle :: puzzle where
  "archived_puzzle =
     \<lparr> p_id = str ''p2'', p_userId = Some (str ''alice''), p_emojiSequence = [0x2600],
       p_answer = str ''Sun'', p_hint = Some (str ''sky''), p_category = None,
       p_difficulty = None, p_language = None, p_isSystem = False,
       p_isActive = False, p_createdAt = 300, p_updatedAt = 400 \<rparr>"

definition alice_session :: session where
  "alice_session =
     \<lparr> s_id = str ''s1'', s_userId = str ''alice'', s_mode = Some (str ''practice''),
       s_createdAt = 500, s_endedAt = None, s_totalQuestions = Some 5,
       s_correctAnswers = None \<rparr>"

definition example_db :: database where
  "example_db =
     \<lparr> EmojiPuzzles = [system_puzzle, alice_puzzle, archived_puzzle],
       EmojiPuzzleSessions = [alice_session],
       EmojiPuzzleAttempts = [] \<rparr>"

definition no_updates :: updatePuzzle_input where
  "no_updates =
     \<lparr> u_id = [], u_emojiSequence = None, u_answer = None, u_hint = None, u_category = None,
       u_difficulty = None, u_language = None, u_isActive = None \<rparr>"

definition blank_owner_puzzle :: puzzle where
  \<comment> \<open>the puzzle that \<open>createPuzzle\<close> stores for a user whose id is the empty string\<close>
  "blank_owner_puzzle =
     \<lparr> p_id = str ''p3'', p_userId = Some [], p_emojiSequence = [0x2600],
       p_answer = str ''Sun'', p_hint = None, p_category = None, p_difficulty = None,
       p_language = None, p_isSystem = False, p_isActive = True,
       p_createdAt = 100, p_updatedAt = 100 \<rparr>"

definition blank_owner_db :: database where
  "blank_owner_db =
     \<lparr> EmojiPuzzles = [blank_owner_puzzle], EmojiPuzzleSessions = [],
       EmojiPuzzleAttempts = [] \<rparr>"

definition ended_db :: database where
  \<comment> \<open>the example database after the session has been ended at time 900\<close>
  "ended_db = example_db\<lparr>EmojiPuzzleSessions := [alice_session\<lparr>s_endedAt := Some 900\<rparr>]\<rparr>"

definition empty_db :: database where
  "empty_db = \<lparr> EmojiPuzzles = [], EmojiPuzzleSessions = [], EmojiPuzzleAttempts = [] \<rparr>"

lemmas example_defs =
  alice_def bob_def system_puzzle_def alice_puzzle_def archived_puzzle_def alice_session_def
  example_db_def no_updates_def str_def unique_ids_def blank_owner_puzzle_def
  blank_owner_db_def empty_db_def ended_db_def

lemmas normalizer_defs =
  normalizeAnswer_def replace_non_alnum_def replace_whitespace_def toLocaleLowerCase_def
  trim_def CodePointsToString_def UTF16EncodeCodePoint_def isWhiteSpace_def
  isLeadingSurrogate_def isTrailingSurrogate_def fragment_def

section \<open>Rows and keys\<close>

lemma select_by_key:
  assumes "distinct (map key rows)" and "r \<in> set rows"
  shows "select_where (\<lambda>q. key q = key r \<and> P q) rows = (if P r then [r] else [])"
  using assms unfolding select_where_def
proof (induction rows)
  case Nil
  then show ?case by simp
next
  case (Cons a rows)
  show ?case
  proof (cases "a = r")
    case True
    with Cons.prems have "\<forall>q \<in> set rows. key q \<noteq> key r" by (auto simp: image_iff)
    then have "filter (\<lambda>q. key q = key r \<and> P q) rows = []" by (auto simp: filter_empty_conv)
    with True show ?thesis by simp
  next
    case False
    with Cons.prems have "r \<in> set rows" "key a \<noteq> key r" "distinct (map key rows)"
      by (auto simp: image_iff)
    with Cons.IH show ?thesis by simp
  qed
qed

lemma key_eq_iff:
  assumes "distinct (map key rows)" and "r \<in> set rows" and "q \<in> set rows"
  shows "(key q = key r) = (q = r)"
proof
  assume "key q = key r"
  moreover have "inj_on key (set rows)" using assms(1) by (simp add: distinct_map)
  ultimately show "q = r" using assms(2,3) by (simp add: inj_on_def)
next
  assume "q = r" then show "key q = key r" by simp
qed

lemma update_by_key:
  assumes "distinct (map key rows)" and "r \<in> set rows"
  shows "update_where f (\<lambda>q. key q = key r) rows = map (\<lambda>q. if q = r then f r else q) rows"
  unfolding update_where_def
proof (rule map_cong [OF refl])
  fix q assume "q \<in> set rows"
  then have "(key q = key r) = (q = r)" by (rule key_eq_iff [OF assms])
  then show "(if key q = key r then f q else q) = (if q = r then f r else q)" by auto
qed

section \<open>Ownership of puzzles\<close>

text \<open>
  C5. A caller who is not the owner of a stored puzzle (the puzzle belongs to another user,
  or to nobody: a system puzzle) cannot update or archive it: both actions throw
  \<open>NOT_FOUND\<close> and leave the database, hence the puzzle, as it was. The owner is compared
  with the caller by equality; nothing lets a system puzzle through.
\<close>

theorem update_archive_not_owned:
  assumes "unique_ids db" and "p \<in> set (EmojiPuzzles db)"
    and "p_userId p \<noteq> Some (user_id usr)" and "u_id inp = p_id p"
  shows "updatePuzzle now inp (Some usr) db = (Inl NOT_FOUND, db)
       \<and> archivePuzzle now (p_id p) (Some usr) db = (Inl NOT_FOUND, db)"
proof -
  have d: "distinct (map p_id (EmojiPuzzles db))" using assms(1) by (simp add: unique_ids_def)
  have "select_where (\<lambda>r. p_id r = p_id p \<and> p_userId r = Some (user_id usr)) (EmojiPuzzles db) = []"
    using select_by_key [OF d assms(2), of "\<lambda>r. p_userId r = Some (user_id usr)"] assms(3) by simp
  then show ?thesis
    by (simp add: updatePuzzle_def archivePuzzle_def requireUser_def assms(4))
qed

theorem update_archive_not_owned_witness:
  "unique_ids example_db \<and> system_puzzle \<in> set (EmojiPuzzles example_db)
   \<and> p_userId system_puzzle \<noteq> Some (user_id bob)
   \<and> u_id (no_updates\<lparr>u_id := str ''p0'', u_answer := Some (str ''Bus'')\<rparr>) = p_id system_puzzle
   \<and> updatePuzzle 900 (no_updates\<lparr>u_id := str ''p0'', u_answer := Some (str ''Bus'')\<rparr>) (Some bob) example_db
       = (Inl NOT_FOUND, example_db)
   \<and> archivePuzzle 900 (str ''p0'') (Some bob) example_db = (Inl NOT_FOUND, example_db)"
  using update_archive_not_owned [of example_db system_puzzle bob
      "no_updates\<lparr>u_id := str ''p0'', u_answer := Some (str ''Bus'')\<rparr>" 900]
  by (simp add: example_defs)

lemma keys_length_collect:
  "(keys_length (collect_updates inp) = 0) =
     (u_emojiSequence inp = None \<and> u_answer inp = None \<and> u_hint inp = None
      \<and> u_category inp = None \<and> u_difficulty inp = None \<and> u_language inp = None
      \<and> u_isActive inp = None)"
proof -
  have p: "\<And>v::'a option. (present v = 0) = (v = None)" for dummy :: 'a
    by (simp add: present_def split: option.split)
  show ?thesis
    by (simp add: keys_length_def collect_updates_def p)
qed

lemma updatePuzzle_owned:
  assumes "unique_ids db" and "p \<in> set (EmojiPuzzles db)"
    and "p_userId p = Some (user_id usr)" and "u_id inp = p_id p"
  shows "updatePuzzle now inp (Some usr) db =
     (if keys_length (collect_updates inp) = 0 then (Inl BAD_REQUEST, db)
      else (Inr (set_updates ((collect_updates inp)\<lparr>upd_updatedAt := Some now\<rparr>) p),
            db\<lparr>EmojiPuzzles := map (\<lambda>r. if r = p
                   then set_updates ((collect_updates inp)\<lparr>upd_updatedAt := Some now\<rparr>) p else r)
                 (EmojiPuzzles db)\<rparr>))"
proof -
  have d: "distinct (map p_id (EmojiPuzzles db))" using assms(1) by (simp add: unique_ids_def)
  have sel: "select_where (\<lambda>r. p_id r = p_id p \<and> p_userId r = Some (user_id usr)) (EmojiPuzzles db) = [p]"
    using select_by_key [OF d assms(2), of "\<lambda>r. p_userId r = Some (user_id usr)"] assms(3) by simp
  show ?thesis
    by (simp add: updatePuzzle_def requireUser_def assms(4) sel Let_def
        update_by_key [OF d assms(2)])
qed

lemmas puzzle_action_defs =
  updatePuzzle_def archivePuzzle_def requireUser_def select_where_def update_where_def
  collect_updates_def keys_length_def present_def set_updates_def

text \<open>
  C7. An update of a puzzle by its owner: when the request names no field to change, the
  action throws \<open>BAD_REQUEST\<close> and the database is as it was; otherwise it succeeds, the
  stored row is replaced by the returned one (every other row is untouched), \<open>updatedAt\<close>
  is the current time, and every field that the request does not name keeps its stored
  value, as do \<open>id\<close>, \<open>userId\<close>, \<open>isSystem\<close> and \<open>createdAt\<close>.
\<close>

theorem update_own_puzzle:
  assumes "unique_ids db" and "p \<in> set (EmojiPuzzles db)"
    and "p_userId p = Some (user_id usr)" and "u_id inp = p_id p"
  shows "((u_emojiSequence inp = None \<and> u_answer inp = None \<and> u_hint inp = None
          \<and> u_category inp = None \<and> u_difficulty inp = None \<and> u_language inp = None
          \<and> u_isActive inp = None)
          \<longrightarrow> updatePuzzle now inp (Some usr) db = (Inl BAD_REQUEST, db))
       \<and> (\<not> (u_emojiSequence inp = None \<and> u_answer inp = None \<and> u_hint inp = None
          \<and> u_category inp = None \<and> u_difficulty inp = None \<and> u_language inp = None
          \<and> u_isActive inp = None)
          \<longrightarrow> (\<exists>p'. updatePuzzle now inp (Some usr) db
                    = (Inr p', db\<lparr>EmojiPuzzles := map (\<lambda>r. if r = p then p' else r) (EmojiPuzzles db)\<rparr>)
               \<and> p_updatedAt p' = now
               \<and> (u_emojiSequence inp = None \<longrightarrow> p_emojiSequence p' = p_emojiSequence p)
               \<and> (u_answer inp = None \<longrightarrow> p_answer p' = p_answer p)
               \<and> (u_hint inp = None \<longrightarrow> p_hint p' = p_hint p)
               \<and> (u_category inp = None \<longrightarrow> p_category p' = p_category p)
               \<and> (u_difficulty inp = None \<longrightarrow> p_difficulty p' = p_difficulty p)
               \<and> (u_language inp = None \<longrightarrow> p_language p' = p_language p)
               \<and> (u_isActive inp = None \<longrightarrow> p_isActive p' = p_isActive p)
               \<and> p_id p' = p_id p \<and> p_userId p' = p_userId p
               \<and> p_isSystem p' = p_isSystem p \<and> p_createdAt p' = p_createdAt p))"
    (is "(?none \<longrightarrow> ?bad) \<and> (\<not> ?none \<longrightarrow> ?ex)")
proof (intro conjI impI)
  assume ?none
  then have "keys_length (collect_updates inp) = 0" by (simp add: keys_length_collect)
  then show ?bad by (simp add: updatePuzzle_owned [OF assms])
next
  assume "\<not> ?none"
  then have k: "keys_length (collect_updates inp) \<noteq> 0" by (simp add: keys_length_collect)
  let ?p = "set_updates ((collect_updates inp)\<lparr>upd_updatedAt := Some now\<rparr>) p"
  have "updatePuzzle now inp (Some usr) db
          = (Inr ?p, db\<lparr>EmojiPuzzles := map (\<lambda>r. if r = p then ?p else r) (EmojiPuzzles db)\<rparr>)"
    using k by (simp add: updatePuzzle_owned [OF assms])
  moreover have "p_updatedAt ?p = now" by (simp add: set_updates_def)
  moreover have "u_emojiSequence inp = None \<longrightarrow> p_emojiSequence ?p = p_emojiSequence p"
    by (simp add: set_updates_def collect_updates_def)
  moreover have "u_answer inp = None \<longrightarrow> p_answer ?p = p_answer p"
    by (simp add: set_updates_def collect_updates_def)
  moreover have "u_hint inp = None \<longrightarrow> p_hint ?p = p_hint p"
    by (simp add: set_updates_def collect_updates_def)
  moreover have "u_category inp = None \<longrightarrow> p_category ?p = p_category p"
    by (simp add: set_updates_def collect_updates_def)
  moreover have "u_difficulty inp = None \<longrightarrow> p_difficulty ?p = p_difficulty p"
    by (simp add: set_updates_def collect_updates_def)
  moreover have "u_language inp = None \<longrightarrow> p_language ?p = p_language p"
    by (simp add: set_updates_def collect_updates_def)
  moreover have "u_isActive inp = None \<longrightarrow> p_isActive ?p = p_isActive p"
    by (simp add: set_updates_def collect_updates_def)
  moreover have "p_id ?p = p_id p" by (simp add: set_updates_def)
  moreover have "p_userId ?p = p_userId p" by (simp add: set_updates_def)
  moreover have "p_isSystem ?p = p_isSystem p" by (simp add: set_updates_def)
  moreover have "p_createdAt ?p = p_createdAt p" by (simp add: set_updates_def)
  ultimately show ?ex
    by (intro exI [of _ ?p] conjI)
qed

theorem update_own_puzzle_witness:
  "unique_ids example_db \<and> alice_puzzle \<in> set (EmojiPuzzles example_db)
   \<and> p_userId alice_puzzle = Some (user_id alice)
   \<and> updatePuzzle 900 (no_updates\<lparr>u_id := str ''p1''\<rparr>) (Some alice) example_db
        = (Inl BAD_REQUEST, example_db)
   \<and> updatePuzzle 900 (no_updates\<lparr>u_id := str ''p1'', u_hint := Some (str ''cars'')\<rparr>) (Some alice) example_db
        = (Inr (alice_puzzle\<lparr>p_hint := Some (str ''cars''), p_updatedAt := 900\<rparr>),
           example_db\<lparr>EmojiPuzzles :=
             [system_puzzle, alice_puzzle\<lparr>p_hint := Some (str ''cars''), p_updatedAt := 900\<rparr>,
              archived_puzzle]\<rparr>)"
  using update_own_puzzle [of example_db alice_puzzle alice "no_updates\<lparr>u_id := str ''p1''\<rparr>" 900]
    update_own_puzzle [of example_db alice_puzzle alice
      "no_updates\<lparr>u_id := str ''p1'', u_hint := Some (str ''cars'')\<rparr>" 900]
  by (simp add: example_defs puzzle_action_defs)

text \<open>
  C10. \<open>isActive\<close> is one of the fields an update may set, and the update does not look
  at the active flag of its target: for an archived puzzle of the caller, on which
  \<open>archivePuzzle\<close> throws \<open>NOT_FOUND\<close>, an update with \<open>isActive = true\<close> succeeds and
  stores the puzzle as active again.
\<close>

theorem update_reactivates:
  assumes "unique_ids db" and "p \<in> set (EmojiPuzzles db)"
    and "p_userId p = Some (user_id usr)" and "u_id inp = p_id p"
    and "u_isActive inp = Some True" and "\<not> p_isActive p"
  shows "archivePuzzle now (p_id p) (Some usr) db = (Inl NOT_FOUND, db)
       \<and> (\<exists>p'. updatePuzzle now inp (Some usr) db
                 = (Inr p', db\<lparr>EmojiPuzzles := map (\<lambda>r. if r = p then p' else r) (EmojiPuzzles db)\<rparr>)
              \<and> p_isActive p' \<and> p_id p' = p_id p \<and> p_userId p' = p_userId p
              \<and> p' \<in> set (EmojiPuzzles (snd (updatePuzzle now inp (Some usr) db))))"
    (is "?arch \<and> ?ex")
proof
  have d: "distinct (map p_id (EmojiPuzzles db))" using assms(1) by (simp add: unique_ids_def)
  have sel: "select_where (\<lambda>r. p_id r = p_id p \<and> p_userId r = Some (user_id usr)) (EmojiPuzzles db) = [p]"
    using select_by_key [OF d assms(2), of "\<lambda>r. p_userId r = Some (user_id usr)"] assms(3) by simp
  show ?arch using assms(6) by (simp add: archivePuzzle_def requireUser_def sel)
next
  let ?p = "set_updates ((collect_updates inp)\<lparr>upd_updatedAt := Some now\<rparr>) p"
  have k: "keys_length (collect_updates inp) \<noteq> 0"
    using assms(5) by (simp add: keys_length_collect)
  have u: "updatePuzzle now inp (Some usr) db
          = (Inr ?p, db\<lparr>EmojiPuzzles := map (\<lambda>r. if r = p then ?p else r) (EmojiPuzzles db)\<rparr>)"
    using k by (simp add: updatePuzzle_owned [OF assms(1-4)])
  moreover have "p_isActive ?p" using assms(5) by (simp add: set_updates_def collect_updates_def)
  moreover have "p_id ?p = p_id p" by (simp add: set_updates_def)
  moreover have "p_userId ?p = p_userId p" by (simp add: set_updates_def)
  moreover have "?p \<in> set (EmojiPuzzles (snd (updatePuzzle now inp (Some usr) db)))"
    using assms(2) by (simp only: u snd_conv) (auto simp: image_iff)
  ultimately show ?ex
    by (intro exI [of _ ?p] conjI)
qed

theorem update_reactivates_witness:
  "unique_ids example_db \<and> archived_puzzle \<in> set (EmojiPuzzles example_db)
   \<and> p_userId archived_puzzle = Some (user_id alice) \<and> \<not> p_isActive archived_puzzle
   \<and> archivePuzzle 900 (str ''p2'') (Some alice) example_db = (Inl NOT_FOUND, example_db)
   \<and> updatePuzzle 900 (no_updates\<lparr>u_id := str ''p2'', u_isActive := Some True\<rparr>) (Some alice) example_db
        = (Inr (archived_puzzle\<lparr>p_isActive := True, p_updatedAt := 900\<rparr>),
           example_db\<lparr>EmojiPuzzles :=
             [system_puzzle, alice_puzzle, archived_puzzle\<lparr>p_isActive := True, p_updatedAt := 900\<rparr>]\<rparr>)"
  using update_reactivates [of example_db archived_puzzle alice
      "no_updates\<lparr>u_id := str ''p2'', u_isActive := Some True\<rparr>" 900]
  by (simp add: example_defs puzzle_action_defs)

section \<open>Listing\<close>

lemma set_limit: "set (limit n rows) \<subseteq> set rows"
  by (simp add: limit_def set_take_subset)

lemma set_offset: "set (offset n rows) \<subseteq> set rows"
  by (simp add: offset_def set_drop_subset)

text \<open>
  C8. Every puzzle that \<open>listMyPuzzles\<close> returns is a stored puzzle owned by the caller
  (so never a system puzzle or the puzzle of another user), and it is active unless the
  request has \<open>includeInactive = true\<close>.
\<close>

theorem list_my_puzzles_scope:
  assumes "fst (listMyPuzzles inp ctx db) = Inr d" and "q \<in> set (d_items d)"
  shows "\<exists>usr. ctx = Some usr \<and> p_userId q = Some (user_id usr)
           \<and> (l_includeInactive inp \<noteq> Some True \<longrightarrow> p_isActive q)
           \<and> q \<in> set (EmojiPuzzles db)"
proof (cases ctx)
  case None
  with assms(1) show ?thesis by (simp add: listMyPuzzles_def requireUser_def)
next
  case (Some usr)
  define rows where "rows = select_where (list_where inp usr) (EmojiPuzzles db)"
  have "d_items d = limit (l_pageSize inp) (offset ((l_page inp - 1) * l_pageSize inp)
                      (sort_key p_createdAt rows))"
    using assms(1) Some by (auto simp: listMyPuzzles_def requireUser_def Let_def rows_def)
  moreover have "set (limit (l_pageSize inp) (offset ((l_page inp - 1) * l_pageSize inp)
                      (sort_key p_createdAt rows))) \<subseteq> set (sort_key p_createdAt rows)"
    using set_limit set_offset by (rule subset_trans)
  ultimately have "set (d_items d) \<subseteq> set rows" by simp
  with assms(2) have "q \<in> set (EmojiPuzzles db)" and w: "list_where inp usr q"
    by (auto simp: rows_def select_where_def)
  from w have "p_userId q = Some (user_id usr)"
    by (auto simp: list_where_def Let_def split: if_splits option.splits)
  moreover from w have "l_includeInactive inp \<noteq> Some True \<longrightarrow> p_isActive q"
    by (auto simp: list_where_def Let_def split: if_splits option.splits)
  ultimately show ?thesis using Some \<open>q \<in> set (EmojiPuzzles db)\<close> by simp
qed

theorem list_my_puzzles_scope_witness:
  "fst (listMyPuzzles \<lparr> l_includeInactive = None, l_category = None, l_difficulty = None,
                          l_page = 1, l_pageSize = 20 \<rparr> (Some alice) example_db)
     = Inr \<lparr> d_items = [alice_puzzle], d_total = 1, d_page = 1 \<rparr>
   \<and> alice_puzzle \<in> set (d_items \<lparr> d_items = [alice_puzzle], d_total = 1, d_page = 1 \<rparr>)
   \<and> p_userId alice_puzzle = Some (user_id alice) \<and> p_isActive alice_puzzle
   \<and> alice_puzzle \<in> set (EmojiPuzzles example_db)"
  using list_my_puzzles_scope [of "\<lparr> l_includeInactive = None, l_category = None,
      l_difficulty = None, l_page = 1, l_pageSize = 20 \<rparr>" "Some alice" example_db
      "\<lparr> d_items = [alice_puzzle], d_total = 1, d_page = 1 \<rparr>" alice_puzzle]
  by (simp add: example_defs listMyPuzzles_def requireUser_def list_where_def truthy_def
      select_where_def limit_def offset_def)

section \<open>Sessions\<close>

text \<open>
  C6. A request to end a session that gives both counts, with more correct answers than
  questions, never succeeds and never writes: the database, hence the stored session and
  its \<open>endedAt\<close>, is as it was. For a signed-in caller and a session of that caller the
  error is \<open>BAD_REQUEST\<close> (without a caller it is \<open>UNAUTHORIZED\<close>, without such a
  session \<open>NOT_FOUND\<close>, both thrown earlier).
\<close>

theorem end_session_exceeding_counts:
  assumes "e_totalQuestions inp = Some t" and "e_correctAnswers inp = Some c" and "c > t"
  shows "snd (endPuzzleSession now inp ctx db) = db
       \<and> isl (fst (endPuzzleSession now inp ctx db))
       \<and> (ctx = Some usr \<and> s \<in> set (EmojiPuzzleSessions db) \<and> s_id s = e_sessionId inp
            \<and> s_userId s = user_id usr
           \<longrightarrow> endPuzzleSession now inp ctx db = (Inl BAD_REQUEST, db))"
proof -
  have ex: "exceeds (e_totalQuestions inp) (e_correctAnswers inp)"
    using assms by (simp add: exceeds_def)
  have a: "snd (endPuzzleSession now inp ctx db) = db \<and> isl (fst (endPuzzleSession now inp ctx db))"
    using ex by (simp add: endPuzzleSession_def requireUser_def split: option.split list.split)
  have b: "endPuzzleSession now inp ctx db = (Inl BAD_REQUEST, db)"
    if "ctx = Some usr" and "s \<in> set (EmojiPuzzleSessions db)" and "s_id s = e_sessionId inp"
      and "s_userId s = user_id usr"
  proof -
    have "s \<in> set (select_where (\<lambda>r. s_id r = e_sessionId inp \<and> s_userId r = user_id usr)
                      (EmojiPuzzleSessions db))"
      using that by (simp add: select_where_def)
    then obtain x xs where "select_where (\<lambda>r. s_id r = e_sessionId inp \<and> s_userId r = user_id usr)
                      (EmojiPuzzleSessions db) = x # xs"
      by (cases "select_where (\<lambda>r. s_id r = e_sessionId inp \<and> s_userId r = user_id usr)
                      (EmojiPuzzleSessions db)") auto
    then show ?thesis using ex that(1) by (simp add: endPuzzleSession_def requireUser_def)
  qed
  from a b show ?thesis by blast
qed

theorem end_session_exceeding_counts_witness:
  "e_totalQuestions \<lparr>e_sessionId = str ''s1'', e_totalQuestions = Some 5, e_correctAnswers = Some 6\<rparr> = Some 5
   \<and> e_correctAnswers \<lparr>e_sessionId = str ''s1'', e_totalQuestions = Some 5, e_correctAnswers = Some 6\<rparr> = Some 6
   \<and> (6::int) > 5
   \<and> alice_session \<in> set (EmojiPuzzleSessions example_db)
   \<and> s_userId alice_session = user_id alice
   \<and> s_endedAt alice_session = None
   \<and> endPuzzleSession 900 \<lparr>e_sessionId = str ''s1'', e_totalQuestions = Some 5, e_correctAnswers = Some 6\<rparr>
        (Some alice) example_db = (Inl BAD_REQUEST, example_db)"
  using end_session_exceeding_counts [of "\<lparr>e_sessionId = str ''s1'', e_totalQuestions = Some 5, e_correctAnswers = Some 6\<rparr>"
      5 6 900 "Some alice" example_db alice alice_session]
  by (simp add: example_defs)

section \<open>Attempts\<close>

lemma select_id:
  assumes "distinct (map key rows)" and "r \<in> set rows"
  shows "select_where (\<lambda>q. key q = key r) rows = [r]"
  using select_by_key [OF assms, of "\<lambda>q. True"] by simp

text \<open>
  C3. For an active puzzle that the submitting user may attempt (a system puzzle or a puzzle
  of their own), with the session resolved and a fresh attempt id, the submission succeeds:
  the returned attempt is the one row appended to the attempts, and its \<open>isCorrect\<close> is
  true exactly when the normalized guess equals the normalized answer of the puzzle.
\<close>

theorem submit_correctness:
  assumes "unique_ids db" and "p \<in> set (EmojiPuzzles db)" and "g_puzzleId inp = p_id p"
    and "p_isActive p"
    and "p_userId p = None \<or> p_userId p = Some (user_id usr)"
    and "resolve_session (g_sessionId inp) usr db = Inr sid"
    and "uuid \<notin> set (map a_id (EmojiPuzzleAttempts db))"
  shows "\<exists>a. submitPuzzleAttempt U now uuid inp (Some usr) db
               = (Inr a, db\<lparr>EmojiPuzzleAttempts := EmojiPuzzleAttempts db @ [a]\<rparr>)
           \<and> a_isCorrect a
               = (normalizeAnswer U (g_guessText inp) = normalizeAnswer U (p_answer p))
           \<and> a_puzzleId a = p_id p \<and> a_userId a = Some (user_id usr)
           \<and> a_guessText a = Some (g_guessText inp) \<and> a_sessionId a = sid"
proof -
  have d: "distinct (map p_id (EmojiPuzzles db))" using assms(1) by (simp add: unique_ids_def)
  have sel: "select_where (\<lambda>r. p_id r = p_id p) (EmojiPuzzles db) = [p]"
    using select_id [OF d assms(2)] .
  have ok: "\<not> (truthy (p_userId p) \<and> p_userId p \<noteq> Some (user_id usr))"
    using assms(5) by (auto simp: truthy_def)
  let ?a = "\<lparr> a_id = uuid, a_sessionId = sid, a_puzzleId = p_id p,
              a_userId = Some (user_id usr), a_guessText = Some (g_guessText inp),
              a_isCorrect = (normalizeAnswer U (g_guessText inp) = normalizeAnswer U (p_answer p)),
              a_createdAt = now \<rparr>"
  have "submitPuzzleAttempt U now uuid inp (Some usr) db
          = (Inr ?a, db\<lparr>EmojiPuzzleAttempts := EmojiPuzzleAttempts db @ [?a]\<rparr>)"
    using assms(4,6,7) ok
    by (simp add: submitPuzzleAttempt_def requireUser_def assms(3) sel insert_values_def Let_def)
  then show ?thesis
    by (intro exI [of _ ?a]) simp
qed

theorem submit_correctness_witness:
  "unique_ids example_db \<and> alice_puzzle \<in> set (EmojiPuzzles example_db)
   \<and> p_isActive alice_puzzle \<and> p_userId alice_puzzle = Some (user_id alice)
   \<and> resolve_session (Some (str ''s1'')) alice example_db = Inr (Some (str ''s1''))
   \<and> str ''a1'' \<notin> set (map a_id (EmojiPuzzleAttempts example_db))
   \<and> normalizeAnswer fragment (str '' FAST and furious!'') = str ''fastandfurious''
   \<and> normalizeAnswer fragment (p_answer alice_puzzle) = str ''fastandfurious''
   \<and> submitPuzzleAttempt fragment 900 (str ''a1'')
        \<lparr> g_puzzleId = str ''p1'', g_sessionId = Some (str ''s1''),
          g_guessText = str '' FAST and furious!'' \<rparr> (Some alice) example_db
      = (Inr \<lparr> a_id = str ''a1'', a_sessionId = Some (str ''s1''), a_puzzleId = str ''p1'',
               a_userId = Some (str ''alice''), a_guessText = Some (str '' FAST and furious!''),
               a_isCorrect = True, a_createdAt = 900 \<rparr>,
         example_db\<lparr>EmojiPuzzleAttempts :=
           [\<lparr> a_id = str ''a1'', a_sessionId = Some (str ''s1''), a_puzzleId = str ''p1'',
               a_userId = Some (str ''alice''), a_guessText = Some (str '' FAST and furious!''),
               a_isCorrect = True, a_createdAt = 900 \<rparr>]\<rparr>)"
  using submit_correctness [of example_db alice_puzzle
      "\<lparr> g_puzzleId = str ''p1'', g_sessionId = Some (str ''s1''),
          g_guessText = str '' FAST and furious!'' \<rparr>" alice "Some (str ''s1'')" "str ''a1''"
      fragment 900]
  by (simp add: example_defs normalizer_defs resolve_session_def truthy_def select_where_def
      submitPuzzleAttempt_def requireUser_def insert_values_def Let_def)

text \<open>
  What the guard \<open>puzzle.userId && puzzle.userId !== user.id\<close> decides, for an active
  puzzle found by its id: \<open>FORBIDDEN\<close> is thrown exactly when the owner is a non-empty
  string different from the submitting user, and then nothing is written. The first
  operand is a truthiness test, not a test for \<open>NULL\<close>.
\<close>

lemma submit_forbidden_iff:
  assumes "unique_ids db" and "p \<in> set (EmojiPuzzles db)" and "g_puzzleId inp = p_id p"
    and "p_isActive p"
  shows "(fst (submitPuzzleAttempt U now uuid inp (Some usr) db) = Inl FORBIDDEN)
           = (\<exists>owner. p_userId p = Some owner \<and> owner \<noteq> [] \<and> owner \<noteq> user_id usr)
       \<and> (fst (submitPuzzleAttempt U now uuid inp (Some usr) db) = Inl FORBIDDEN
            \<longrightarrow> snd (submitPuzzleAttempt U now uuid inp (Some usr) db) = db)"
proof -
  have d: "distinct (map p_id (EmojiPuzzles db))" using assms(1) by (simp add: unique_ids_def)
  have sel: "select_where (\<lambda>r. p_id r = p_id p) (EmojiPuzzles db) = [p]"
    using select_id [OF d assms(2)] .
  have t: "(truthy (p_userId p) \<and> p_userId p \<noteq> Some (user_id usr))
             = (\<exists>owner. p_userId p = Some owner \<and> owner \<noteq> [] \<and> owner \<noteq> user_id usr)"
    by (cases "p_userId p") (auto simp: truthy_def)
  have r: "resolve_session (g_sessionId inp) usr db \<noteq> Inl FORBIDDEN"
    by (simp add: resolve_session_def split: list.split)
  show ?thesis
  proof (cases "truthy (p_userId p) \<and> p_userId p \<noteq> Some (user_id usr)")
    case True
    then have "submitPuzzleAttempt U now uuid inp (Some usr) db = (Inl FORBIDDEN, db)"
      using assms(4) by (simp add: submitPuzzleAttempt_def requireUser_def assms(3) sel)
    with True t show ?thesis by simp
  next
    case False
    then have "fst (submitPuzzleAttempt U now uuid inp (Some usr) db) \<noteq> Inl FORBIDDEN"
      using assms(4) r
      by (cases "resolve_session (g_sessionId inp) usr db")
         (auto simp: submitPuzzleAttempt_def requireUser_def assms(3) sel insert_values_def Let_def)
    with False t show ?thesis by simp
  qed
qed


section \<open>What the actions do to the sessions\<close>

lemma createPuzzle_sessions:
  "EmojiPuzzleSessions (snd (createPuzzle now uuid inp ctx db)) = EmojiPuzzleSessions db"
  by (simp add: createPuzzle_def Let_def split: sum.split)

lemma updatePuzzle_sessions:
  "EmojiPuzzleSessions (snd (updatePuzzle now inp ctx db)) = EmojiPuzzleSessions db"
  by (simp add: updatePuzzle_def Let_def split: sum.split list.split)

lemma archivePuzzle_sessions:
  "EmojiPuzzleSessions (snd (archivePuzzle now inp ctx db)) = EmojiPuzzleSessions db"
  by (simp add: archivePuzzle_def split: sum.split list.split)

lemma listMyPuzzles_sessions:
  "EmojiPuzzleSessions (snd (listMyPuzzles inp ctx db)) = EmojiPuzzleSessions db"
  by (simp add: listMyPuzzles_def Let_def split: sum.split)

lemma submitPuzzleAttempt_sessions:
  "EmojiPuzzleSessions (snd (submitPuzzleAttempt U now uuid inp ctx db)) = EmojiPuzzleSessions db"
  by (simp add: submitPuzzleAttempt_def Let_def split: sum.split list.split)

lemma startPuzzleSession_sessions:
  "EmojiPuzzleSessions (snd (startPuzzleSession now uuid inp ctx db)) = EmojiPuzzleSessions db
   \<or> (\<exists>s. EmojiPuzzleSessions (snd (startPuzzleSession now uuid inp ctx db))
             = EmojiPuzzleSessions db @ [s]
          \<and> s_endedAt s = None \<and> s_correctAnswers s = None)"
  by (simp add: startPuzzleSession_def insert_values_def Let_def split: sum.split)

lemma endPuzzleSession_sessions:
  "EmojiPuzzleSessions (snd (endPuzzleSession now inp ctx db)) = EmojiPuzzleSessions db
   \<or> (\<exists>session \<in> set (EmojiPuzzleSessions db).
        \<not> exceeds (e_totalQuestions inp) (e_correctAnswers inp)
        \<and> EmojiPuzzleSessions (snd (endPuzzleSession now inp ctx db))
          = update_where
              (\<lambda>r. r\<lparr> s_endedAt := Some now,
                      s_totalQuestions := coalesce (e_totalQuestions inp) (s_totalQuestions session),
                      s_correctAnswers := coalesce (e_correctAnswers inp) (s_correctAnswers session) \<rparr>)
              (\<lambda>r. s_id r = s_id session) (EmojiPuzzleSessions db))"
proof (cases ctx)
  case None
  then show ?thesis by (simp add: endPuzzleSession_def requireUser_def)
next
  case (Some usr)
  show ?thesis
  proof (cases "select_where (\<lambda>r. s_id r = e_sessionId inp \<and> s_userId r = user_id usr)
                  (EmojiPuzzleSessions db)")
    case Nil
    with Some show ?thesis by (simp add: endPuzzleSession_def requireUser_def)
  next
    case (Cons session rest)
    then have "session \<in> set (select_where (\<lambda>r. s_id r = e_sessionId inp \<and> s_userId r = user_id usr)
                  (EmojiPuzzleSessions db))" by simp
    then have "session \<in> set (EmojiPuzzleSessions db)" by (simp add: select_where_def)
    with Some Cons show ?thesis
      by (cases "exceeds (e_totalQuestions inp) (e_correctAnswers inp)")
         (auto simp: endPuzzleSession_def requireUser_def)
  qed
qed

lemma server_sessions:
  "(\<forall>inp. act \<noteq> EndPuzzleSession inp) \<Longrightarrow>
   EmojiPuzzleSessions (snd (server U now uuid act ctx db)) = EmojiPuzzleSessions db
   \<or> (\<exists>s. EmojiPuzzleSessions (snd (server U now uuid act ctx db)) = EmojiPuzzleSessions db @ [s]
          \<and> s_endedAt s = None \<and> s_correctAnswers s = None)"
proof (cases act)
  case (StartPuzzleSession inp)
  then show ?thesis using startPuzzleSession_sessions [of now uuid inp ctx db]
    by (simp add: returning_def)
qed (simp_all add: returning_def createPuzzle_sessions updatePuzzle_sessions
      archivePuzzle_sessions listMyPuzzles_sessions submitPuzzleAttempt_sessions)

lemma endPuzzleSession_result:
  "(\<exists>e. endPuzzleSession now inp ctx db = (Inl e, db))
   \<or> (\<exists>session \<in> set (EmojiPuzzleSessions db).
         endPuzzleSession now inp ctx db
           = (Inr (e_sessionId inp),
              db\<lparr>EmojiPuzzleSessions :=
                  update_where
                    (\<lambda>r. r\<lparr> s_endedAt := Some now,
                            s_totalQuestions := coalesce (e_totalQuestions inp) (s_totalQuestions session),
                            s_correctAnswers := coalesce (e_correctAnswers inp) (s_correctAnswers session) \<rparr>)
                    (\<lambda>r. s_id r = e_sessionId inp) (EmojiPuzzleSessions db)\<rparr>))"
proof (cases ctx)
  case None
  then show ?thesis by (simp add: endPuzzleSession_def requireUser_def)
next
  case (Some usr)
  show ?thesis
  proof (cases "select_where (\<lambda>r. s_id r = e_sessionId inp \<and> s_userId r = user_id usr)
                  (EmojiPuzzleSessions db)")
    case Nil
    with Some show ?thesis by (simp add: endPuzzleSession_def requireUser_def)
  next
    case (Cons session rest)
    then have "session \<in> set (select_where (\<lambda>r. s_id r = e_sessionId inp \<and> s_userId r = user_id usr)
                  (EmojiPuzzleSessions db))" by simp
    then have m: "session \<in> set (EmojiPuzzleSessions db)" and i: "s_id session = e_sessionId inp"
      by (simp_all add: select_where_def)
    show ?thesis
    proof (cases "exceeds (e_totalQuestions inp) (e_correctAnswers inp)")
      case True
      with Some Cons show ?thesis by (simp add: endPuzzleSession_def requireUser_def)
    next
      case False
      with Some Cons i have "endPuzzleSession now inp ctx db
           = (Inr (e_sessionId inp),
              db\<lparr>EmojiPuzzleSessions :=
                  update_where
                    (\<lambda>r. r\<lparr> s_endedAt := Some now,
                            s_totalQuestions := coalesce (e_totalQuestions inp) (s_totalQuestions session),
                            s_correctAnswers := coalesce (e_correctAnswers inp) (s_correctAnswers session) \<rparr>)
                    (\<lambda>r. s_id r = e_sessionId inp) (EmojiPuzzleSessions db)\<rparr>)"
        by (simp add: endPuzzleSession_def requireUser_def)
      with m show ?thesis by blast
    qed
  qed
qed

lemma endPuzzleSession_succeeds:
  assumes "s \<in> set (EmojiPuzzleSessions db)" and "s_id s = e_sessionId inp"
    and "s_userId s = user_id usr"
    and "\<not> exceeds (e_totalQuestions inp) (e_correctAnswers inp)"
  shows "fst (endPuzzleSession now inp (Some usr) db) = Inr (e_sessionId inp)"
proof -
  have "s \<in> set (select_where (\<lambda>r. s_id r = e_sessionId inp \<and> s_userId r = user_id usr)
                      (EmojiPuzzleSessions db))"
    using assms(1-3) by (simp add: select_where_def)
  then obtain x xs where sel: "select_where (\<lambda>r. s_id r = e_sessionId inp \<and> s_userId r = user_id usr)
                      (EmojiPuzzleSessions db) = x # xs"
    by (cases "select_where (\<lambda>r. s_id r = e_sessionId inp \<and> s_userId r = user_id usr)
                      (EmojiPuzzleSessions db)") auto
  then have "x \<in> set (select_where (\<lambda>r. s_id r = e_sessionId inp \<and> s_userId r = user_id usr)
                      (EmojiPuzzleSessions db))" by simp
  then have "s_id x = e_sessionId inp" by (simp add: select_where_def)
  then show ?thesis using sel assms(4) by (simp add: endPuzzleSession_def requireUser_def)
qed

text \<open>
  C2, as the code has it. \<open>endedAt\<close> is written by \<open>endPuzzleSession\<close> alone, and that
  action stamps it whether or not it was set before. For every action and every stored
  session, open or ended:
  \<^item> the session is still stored, at the same place and under the same id;
  \<^item> an action other than \<open>endPuzzleSession\<close> leaves the whole row as it was;
  \<^item> an \<open>endPuzzleSession\<close> that throws writes nothing; one that succeeds returns the
    requested id, sets \<open>endedAt\<close> of every row with that id to the current time and
    leaves every other row as it was;
  \<^item> \<open>endPuzzleSession\<close> succeeds for a signed-in caller who owns a stored session with
    the requested id, unless both counts are given with correct above total: that the
    session has ended already does not matter, so ending it again stamps it again;
  \<^item> an \<open>endedAt\<close> that was set is afterwards the old value or the current time: it
    never becomes \<open>NULL\<close> again and, with a clock that does not run backward, never
    moves backward.
\<close>

theorem end_session_alone_stamps_endedAt:
  assumes "server U now uuid act ctx db = (res, db')"
    and "i < length (EmojiPuzzleSessions db)"
  shows "i < length (EmojiPuzzleSessions db')
       \<and> s_id (EmojiPuzzleSessions db' ! i) = s_id (EmojiPuzzleSessions db ! i)
       \<and> ((\<forall>inp. act \<noteq> EndPuzzleSession inp)
            \<longrightarrow> EmojiPuzzleSessions db' ! i = EmojiPuzzleSessions db ! i)
       \<and> (\<forall>inp. act = EndPuzzleSession inp \<longrightarrow>
            (case res of
               Inl e \<Rightarrow> db' = db
             | Inr d \<Rightarrow> d = IdData (e_sessionId inp)
                 \<and> (if s_id (EmojiPuzzleSessions db ! i) = e_sessionId inp
                     then s_endedAt (EmojiPuzzleSessions db' ! i) = Some now
                     else EmojiPuzzleSessions db' ! i = EmojiPuzzleSessions db ! i)))
       \<and> (\<forall>inp usr s. act = EndPuzzleSession inp \<and> ctx = Some usr
              \<and> s \<in> set (EmojiPuzzleSessions db) \<and> s_id s = e_sessionId inp
              \<and> s_userId s = user_id usr
              \<and> \<not> exceeds (e_totalQuestions inp) (e_correctAnswers inp)
            \<longrightarrow> res = Inr (IdData (e_sessionId inp)))
       \<and> (\<forall>t. s_endedAt (EmojiPuzzleSessions db ! i) = Some t
            \<longrightarrow> s_endedAt (EmojiPuzzleSessions db' ! i) = Some t
                \<or> s_endedAt (EmojiPuzzleSessions db' ! i) = Some now)
       \<and> (\<forall>t. s_endedAt (EmojiPuzzleSessions db ! i) = Some t \<and> t \<le> now
            \<longrightarrow> (\<exists>t'. s_endedAt (EmojiPuzzleSessions db' ! i) = Some t' \<and> t \<le> t'))"
    (is "?len \<and> ?id \<and> ?others \<and> ?ends \<and> ?succeeds \<and> ?old \<and> ?mono")
proof (cases "\<forall>inp. act \<noteq> EndPuzzleSession inp")
  case True
  have db': "db' = snd (server U now uuid act ctx db)" using assms(1) by simp
  from server_sessions [OF True, of U now uuid ctx db]
  have same: "i < length (EmojiPuzzleSessions db')
        \<and> EmojiPuzzleSessions db' ! i = EmojiPuzzleSessions db ! i"
    unfolding db' using assms(2) by (auto simp: nth_append)
  then have ?len and ?id and ?others and ?old and ?mono by simp_all
  moreover have ?ends and ?succeeds using True by simp_all
  ultimately show ?thesis by blast
next
  case False
  then obtain inp where act: "act = EndPuzzleSession inp" by blast
  have res: "res = map_sum (\<lambda>e. e) IdData (fst (endPuzzleSession now inp ctx db))"
    and db': "db' = snd (endPuzzleSession now inp ctx db)"
    using assms(1) act by (auto simp: returning_def)
  have others: ?others using act by simp
  have succeeds: ?succeeds
    using act res endPuzzleSession_succeeds [of _ db inp _ now] by auto
  from endPuzzleSession_result [of now inp ctx db]
  have "?len \<and> ?id \<and> ?ends \<and> ?old"
  proof
    assume "\<exists>e. endPuzzleSession now inp ctx db = (Inl e, db)"
    then obtain e where "endPuzzleSession now inp ctx db = (Inl e, db)" by blast
    then have "res = Inl e" and "db' = db" using res db' by simp_all
    then show ?thesis using assms(2) act by simp
  next
    assume "\<exists>session \<in> set (EmojiPuzzleSessions db).
         endPuzzleSession now inp ctx db
           = (Inr (e_sessionId inp),
              db\<lparr>EmojiPuzzleSessions :=
                  update_where
                    (\<lambda>r. r\<lparr> s_endedAt := Some now,
                            s_totalQuestions := coalesce (e_totalQuestions inp) (s_totalQuestions session),
                            s_correctAnswers := coalesce (e_correctAnswers inp) (s_correctAnswers session) \<rparr>)
                    (\<lambda>r. s_id r = e_sessionId inp) (EmojiPuzzleSessions db)\<rparr>)"
    then obtain session :: session where e: "endPuzzleSession now inp ctx db
           = (Inr (e_sessionId inp),
              db\<lparr>EmojiPuzzleSessions :=
                  update_where
                    (\<lambda>r. r\<lparr> s_endedAt := Some now,
                            s_totalQuestions := coalesce (e_totalQuestions inp) (s_totalQuestions session),
                            s_correctAnswers := coalesce (e_correctAnswers inp) (s_correctAnswers session) \<rparr>)
                    (\<lambda>r. s_id r = e_sessionId inp) (EmojiPuzzleSessions db)\<rparr>)"
      by blast
    have r: "res = Inr (IdData (e_sessionId inp))" using res e by simp
    have d: "EmojiPuzzleSessions db'
               = update_where
                    (\<lambda>r. r\<lparr> s_endedAt := Some now,
                            s_totalQuestions := coalesce (e_totalQuestions inp) (s_totalQuestions session),
                            s_correctAnswers := coalesce (e_correctAnswers inp) (s_correctAnswers session) \<rparr>)
                    (\<lambda>r. s_id r = e_sessionId inp) (EmojiPuzzleSessions db)"
      using db' e by simp
    show ?thesis using assms(2) act
      by (simp add: r d update_where_def)
  qed
  moreover have ?mono
  proof (intro allI impI)
    fix t assume t: "s_endedAt (EmojiPuzzleSessions db ! i) = Some t \<and> t \<le> now"
    with calculation have "s_endedAt (EmojiPuzzleSessions db' ! i) = Some t
                \<or> s_endedAt (EmojiPuzzleSessions db' ! i) = Some now" by blast
    with t show "\<exists>t'. s_endedAt (EmojiPuzzleSessions db' ! i) = Some t' \<and> t \<le> t'" by auto
  qed
  ultimately show ?thesis using others succeeds by blast
qed

theorem end_session_alone_stamps_endedAt_witness:
  "server fragment 950 [] (EndPuzzleSession \<lparr>e_sessionId = str ''s1'', e_totalQuestions = None,
       e_correctAnswers = None\<rparr>) (Some alice) ended_db
     = (Inr (IdData (str ''s1'')),
        example_db\<lparr>EmojiPuzzleSessions := [alice_session\<lparr>s_endedAt := Some 950\<rparr>]\<rparr>)
   \<and> (0::nat) < length (EmojiPuzzleSessions ended_db)
   \<and> s_id (EmojiPuzzleSessions ended_db ! 0) = str ''s1''
   \<and> s_endedAt (EmojiPuzzleSessions ended_db ! 0) = Some 900 \<and> (900::int) \<le> 950
   \<and> s_endedAt (EmojiPuzzleSessions
         (example_db\<lparr>EmojiPuzzleSessions := [alice_session\<lparr>s_endedAt := Some 950\<rparr>]\<rparr>) ! 0)
       = Some 950"
  using end_session_alone_stamps_endedAt [of fragment 950 "[]"
      "EndPuzzleSession \<lparr>e_sessionId = str ''s1'', e_totalQuestions = None, e_correctAnswers = None\<rparr>"
      "Some alice" ended_db "Inr (IdData (str ''s1''))"
      "example_db\<lparr>EmojiPuzzleSessions := [alice_session\<lparr>s_endedAt := Some 950\<rparr>]\<rparr>" 0]
  by (simp add: example_defs returning_def endPuzzleSession_def requireUser_def select_where_def
      update_where_def exceeds_def coalesce_def)

text \<open>
  C2 as stated fails: a session ended at time 900 and ended again at time 950 has its
  \<open>endedAt\<close> stamped a second time.
\<close>

theorem endedAt_set_once_counterexample:
  "endPuzzleSession 900 \<lparr>e_sessionId = str ''s1'', e_totalQuestions = None, e_correctAnswers = None\<rparr>
       (Some alice) example_db = (Inr (str ''s1''), ended_db)
   \<and> map s_endedAt (EmojiPuzzleSessions ended_db) = [Some 900]
   \<and> fst (endPuzzleSession 950 \<lparr>e_sessionId = str ''s1'', e_totalQuestions = None,
             e_correctAnswers = None\<rparr> (Some alice) ended_db) = Inr (str ''s1'')
   \<and> map s_endedAt (EmojiPuzzleSessions (snd (endPuzzleSession 950
         \<lparr>e_sessionId = str ''s1'', e_totalQuestions = None, e_correctAnswers = None\<rparr>
         (Some alice) ended_db))) = [Some 950]"
  by (simp add: example_defs endPuzzleSession_def requireUser_def select_where_def
      update_where_def exceeds_def coalesce_def)

text \<open>
  The counts of the sessions stay consistent under every action except a request to end
  a session that gives exactly one of the two counts.
\<close>

lemma counts_preserved:
  assumes "\<forall>s \<in> set (EmojiPuzzleSessions db). counts_ok s" and "\<not> gives_one_count act"
  shows "\<forall>s \<in> set (EmojiPuzzleSessions (snd (server U now uuid act ctx db))). counts_ok s"
proof (cases "\<forall>inp. act \<noteq> EndPuzzleSession inp")
  case True
  have new: "counts_ok s" if "s_correctAnswers s = None" for s
    using that by (simp add: counts_ok_def split: option.split)
  from server_sessions [OF True, of U now uuid ctx db] assms(1) new
  show ?thesis by auto
next
  case False
  then obtain inp where act: "act = EndPuzzleSession inp" by blast
  have both: "(e_totalQuestions inp = None) = (e_correctAnswers inp = None)"
    using assms(2) act by (simp add: gives_one_count_def)
  have eq: "EmojiPuzzleSessions (snd (server U now uuid act ctx db))
              = EmojiPuzzleSessions (snd (endPuzzleSession now inp ctx db))"
    using act by (simp add: returning_def)
  have upd: "counts_ok (r\<lparr> s_endedAt := Some now,
                  s_totalQuestions := coalesce (e_totalQuestions inp) (s_totalQuestions session),
                  s_correctAnswers := coalesce (e_correctAnswers inp) (s_correctAnswers session) \<rparr>)"
    if "counts_ok session" and "\<not> exceeds (e_totalQuestions inp) (e_correctAnswers inp)"
    for r session
    using that both
    by (cases "e_totalQuestions inp"; cases "e_correctAnswers inp")
       (auto simp: counts_ok_def coalesce_def exceeds_def split: option.splits)
  from endPuzzleSession_sessions [of now inp ctx db] assms(1) upd
  show ?thesis unfolding eq by (auto simp: update_where_def)
qed

text \<open>
  C1 fails on the code. A session started with five questions and ended with
  \<open>correctAnswers = 6\<close> alone: the request is accepted, the total is kept from the stored
  row, and the stored session has six correct answers out of five questions. The check
  \<open>Correct answers cannot exceed total questions\<close> compares the two counts of the
  request only, not the counts that are stored.
\<close>

theorem end_session_one_count_breaks_invariant:
  "startPuzzleSession 500 (str ''s1'') \<lparr>b_mode = Some practice, b_totalQuestions = Some 5\<rparr>
       (Some alice) empty_db
     = (Inr alice_session, empty_db\<lparr>EmojiPuzzleSessions := [alice_session]\<rparr>)
   \<and> counts_ok alice_session
   \<and> endPuzzleSession 900 \<lparr>e_sessionId = str ''s1'', e_totalQuestions = None,
         e_correctAnswers = Some 6\<rparr> (Some alice) (empty_db\<lparr>EmojiPuzzleSessions := [alice_session]\<rparr>)
     = (Inr (str ''s1''),
        empty_db\<lparr>EmojiPuzzleSessions :=
          [alice_session\<lparr>s_endedAt := Some 900, s_correctAnswers := Some 6\<rparr>]\<rparr>)
   \<and> s_totalQuestions (alice_session\<lparr>s_endedAt := Some 900, s_correctAnswers := Some 6\<rparr>) = Some 5
   \<and> s_correctAnswers (alice_session\<lparr>s_endedAt := Some 900, s_correctAnswers := Some 6\<rparr>) = Some 6
   \<and> \<not> counts_ok (alice_session\<lparr>s_endedAt := Some 900, s_correctAnswers := Some 6\<rparr>)"
  by (simp add: example_defs startPuzzleSession_def endPuzzleSession_def requireUser_def
      select_where_def update_where_def exceeds_def coalesce_def insert_values_def counts_ok_def
      Let_def)

section \<open>Normalization\<close>

subsection \<open>Code units and code points\<close>

lemma whitespace_bmp: "isWhiteSpace c \<Longrightarrow> c \<le> 0xFFFF \<and> \<not> isSurrogate c"
  by (auto simp: isWhiteSpace_def isSurrogate_def)

lemma surrogate_not_whitespace: "isSurrogate u \<Longrightarrow> \<not> isWhiteSpace u"
  using whitespace_bmp by blast

lemma leading_surrogate: "isLeadingSurrogate u \<Longrightarrow> isSurrogate u"
  by (simp add: isLeadingSurrogate_def isSurrogate_def)

lemma trailing_surrogate: "isTrailingSurrogate u \<Longrightarrow> isSurrogate u"
  by (simp add: isTrailingSurrogate_def isSurrogate_def)

lemma encode_bmp: "c \<le> 0xFFFF \<Longrightarrow> UTF16EncodeCodePoint c = [c]"
  by (simp add: UTF16EncodeCodePoint_def)

lemma encode_astral:
  assumes "\<not> c \<le> 0xFFFF" and "c < 0x110000"
  shows "\<exists>hi lo. UTF16EncodeCodePoint c = [hi, lo] \<and> isLeadingSurrogate hi
           \<and> isTrailingSurrogate lo \<and> 0x10000 + (hi - 0xD800) * 0x400 + (lo - 0xDC00) = c"
proof -
  define k where "k = c - 0x10000"
  have k: "k < 0x100000" and c: "c = 0x10000 + k" using assms by (simp_all add: k_def)
  have hi: "k div 0x400 < 0x400" using k by simp
  have lo: "k mod 0x400 < 0x400" by simp
  have dm: "k div 0x400 * 0x400 + k mod 0x400 = k" by simp
  show ?thesis
    using assms(1) hi lo dm
    by (simp add: UTF16EncodeCodePoint_def isLeadingSurrogate_def isTrailingSurrogate_def
        k_def [symmetric] c)
qed


lemma decode_single: "\<not> isLeadingSurrogate u \<Longrightarrow> StringToCodePoints (u # s) = u # StringToCodePoints s"
  by (cases s) simp_all

lemma decode_pair:
  "isLeadingSurrogate hi \<Longrightarrow> isTrailingSurrogate lo \<Longrightarrow>
   StringToCodePoints (hi # lo # s) = (0x10000 + (hi - 0xD800) * 0x400 + (lo - 0xDC00)) # StringToCodePoints s"
  by simp

lemma pair_value:
  assumes "isLeadingSurrogate u" and "isTrailingSurrogate v"
  shows "UTF16EncodeCodePoint (0x10000 + (u - 0xD800) * 0x400 + (v - 0xDC00)) = [u, v]"
    and "0x10000 + (u - 0xD800) * 0x400 + (v - 0xDC00) < (0x110000::nat)"
proof -
  define a where "a = u - 0xD800"
  define b where "b = v - 0xDC00"
  have a: "a < 0x400" and u: "u = a + 0xD800"
    using assms(1) unfolding a_def isLeadingSurrogate_def by arith+
  have b: "b < 0x400" and v: "v = b + 0xDC00"
    using assms(2) unfolding b_def isTrailingSurrogate_def by arith+
  have d: "(a * 0x400 + b) div 0x400 = a" using b by simp
  have m: "(a * 0x400 + b) mod 0x400 = b" using b by simp
  show "UTF16EncodeCodePoint (0x10000 + (u - 0xD800) * 0x400 + (v - 0xDC00)) = [u, v]"
    unfolding a_def [symmetric] b_def [symmetric]
    using d m by (simp add: UTF16EncodeCodePoint_def u v)
  show "0x10000 + (u - 0xD800) * 0x400 + (v - 0xDC00) < (0x110000::nat)"
    unfolding a_def [symmetric] b_def [symmetric] using a b by arith
qed

lemma decode_encode:
  assumes "\<forall>c \<in> set cps. isScalar c"
  shows "StringToCodePoints (CodePointsToString cps) = cps"
  using assms
proof (induction cps)
  case Nil
  then show ?case by (simp add: CodePointsToString_def)
next
  case (Cons c cps)
  then have ih: "StringToCodePoints (CodePointsToString cps) = cps" by simp
  from Cons.prems have sc: "c < 0x110000" "\<not> isSurrogate c" by (simp_all add: isScalar_def)
  show ?case
  proof (cases "c \<le> 0xFFFF")
    case True
    have "\<not> isLeadingSurrogate c" using sc(2) leading_surrogate by blast
    then show ?thesis
      using ih by (simp add: CodePointsToString_def encode_bmp [OF True] decode_single)
  next
    case False
    from encode_astral [OF False sc(1)] obtain hi lo where
      e: "UTF16EncodeCodePoint c = [hi, lo]" and h: "isLeadingSurrogate hi"
      and l: "isTrailingSurrogate lo" and v: "0x10000 + (hi - 0xD800) * 0x400 + (lo - 0xDC00) = c"
      by blast
    have "StringToCodePoints (CodePointsToString (c # cps))
            = StringToCodePoints (hi # lo # CodePointsToString cps)"
      by (simp add: CodePointsToString_def e)
    also have "\<dots> = c # StringToCodePoints (CodePointsToString cps)"
      by (simp only: decode_pair [OF h l] v)
    finally show ?thesis by (simp add: ih)
  qed
qed

lemma encode_decode:
  "\<forall>u \<in> set s. u < 0x10000 \<Longrightarrow> CodePointsToString (StringToCodePoints s) = s"
proof (induction s rule: StringToCodePoints.induct)
  case 1
  then show ?case by (simp add: CodePointsToString_def)
next
  case (2 u)
  then show ?case by (simp add: CodePointsToString_def UTF16EncodeCodePoint_def)
next
  case (3 u v rest)
  show ?case
  proof (cases "isLeadingSurrogate u \<and> isTrailingSurrogate v")
    case True
    then have ih: "CodePointsToString (StringToCodePoints rest) = rest"
      using 3 by simp
    have "UTF16EncodeCodePoint (0x10000 + (u - 0xD800) * 0x400 + (v - 0xDC00)) = [u, v]"
      using True pair_value(1) by blast
    then show ?thesis using True ih by (simp add: CodePointsToString_def)
  next
    case False
    then have ih: "CodePointsToString (StringToCodePoints (v # rest)) = v # rest"
      using 3 by simp
    have "UTF16EncodeCodePoint u = [u]" using 3(3) by (simp add: UTF16EncodeCodePoint_def)
    moreover have "StringToCodePoints (u # v # rest) = u # StringToCodePoints (v # rest)"
      using False by auto
    ultimately show ?thesis using ih by (simp add: CodePointsToString_def)
  qed
qed

lemma decode_range:
  "\<forall>u \<in> set s. u < 0x10000 \<Longrightarrow> \<forall>c \<in> set (StringToCodePoints s). c < 0x110000"
proof (induction s rule: StringToCodePoints.induct)
  case (3 u v rest)
  show ?case
  proof (cases "isLeadingSurrogate u \<and> isTrailingSurrogate v")
    case True
    then have "0x10000 + (u - 0xD800) * 0x400 + (v - 0xDC00) < (0x110000::nat)"
      using pair_value(2) by blast
    then show ?thesis using True 3 by simp
  next
    case False
    then show ?thesis using 3 by auto
  qed
qed simp_all

lemma well_formed_scalars:
  assumes "well_formed s"
  shows "CodePointsToString (StringToCodePoints s) = s"
    and "\<forall>c \<in> set (StringToCodePoints s). isScalar c"
  using assms encode_decode [of s] decode_range [of s]
  by (auto simp: well_formed_def isScalar_def)


lemma encode_no_whitespace_head:
  assumes "isScalar c" and "\<not> isWhiteSpace c"
  shows "\<not> isWhiteSpace (hd (UTF16EncodeCodePoint c))"
    and "\<not> isWhiteSpace (last (UTF16EncodeCodePoint c))"
    and "UTF16EncodeCodePoint c \<noteq> []"
    and "\<forall>u \<in> set (UTF16EncodeCodePoint c). \<not> isWhiteSpace u"
proof -
  have "(\<forall>u \<in> set (UTF16EncodeCodePoint c). \<not> isWhiteSpace u) \<and> UTF16EncodeCodePoint c \<noteq> []"
  proof (cases "c \<le> 0xFFFF")
    case True
    then show ?thesis using assms(2) by (simp add: encode_bmp)
  next
    case False
    from assms(1) have "c < 0x110000" by (simp add: isScalar_def)
    from encode_astral [OF False this] obtain hi lo where
      "UTF16EncodeCodePoint c = [hi, lo]" "isLeadingSurrogate hi" "isTrailingSurrogate lo"
      by blast
    then show ?thesis
      using leading_surrogate trailing_surrogate surrogate_not_whitespace by auto
  qed
  then show "\<not> isWhiteSpace (hd (UTF16EncodeCodePoint c))"
    and "\<not> isWhiteSpace (last (UTF16EncodeCodePoint c))"
    and "UTF16EncodeCodePoint c \<noteq> []"
    and "\<forall>u \<in> set (UTF16EncodeCodePoint c). \<not> isWhiteSpace u"
    by simp_all
qed

lemma encode_Cons: "CodePointsToString (c # cps) = UTF16EncodeCodePoint c @ CodePointsToString cps"
  by (simp add: CodePointsToString_def)

lemma encode_append: "CodePointsToString (xs @ ys) = CodePointsToString xs @ CodePointsToString ys"
  by (simp add: CodePointsToString_def)

lemma dropWhile_hd: "xs \<noteq> [] \<Longrightarrow> \<not> P (hd xs) \<Longrightarrow> dropWhile P (xs @ ys) = xs @ ys"
  by (cases xs) simp_all

lemma trim_start_encode:
  "\<forall>c \<in> set cps. isScalar c \<Longrightarrow>
   dropWhile isWhiteSpace (CodePointsToString cps) = CodePointsToString (dropWhile isWhiteSpace cps)"
proof (induction cps)
  case Nil
  then show ?case by (simp add: CodePointsToString_def)
next
  case (Cons c cps)
  show ?case
  proof (cases "isWhiteSpace c")
    case True
    then have "UTF16EncodeCodePoint c = [c]" using whitespace_bmp encode_bmp by blast
    then show ?thesis using True Cons by (simp add: encode_Cons)
  next
    case False
    from Cons.prems have "isScalar c" by simp
    from encode_no_whitespace_head(1,3) [OF this False]
    have "dropWhile isWhiteSpace (UTF16EncodeCodePoint c @ CodePointsToString cps)
            = UTF16EncodeCodePoint c @ CodePointsToString cps"
      by (simp add: dropWhile_hd)
    then show ?thesis using False by (simp add: encode_Cons)
  qed
qed

lemma trim_end_encode:
  "\<forall>c \<in> set cps. isScalar c \<Longrightarrow>
   rev (dropWhile isWhiteSpace (rev (CodePointsToString cps)))
     = CodePointsToString (rev (dropWhile isWhiteSpace (rev cps)))"
proof (induction cps rule: rev_induct)
  case Nil
  then show ?case by (simp add: CodePointsToString_def)
next
  case (snoc c cps)
  show ?case
  proof (cases "isWhiteSpace c")
    case True
    then have "UTF16EncodeCodePoint c = [c]" using whitespace_bmp encode_bmp by blast
    then show ?thesis using True snoc by (simp add: encode_append encode_Cons CodePointsToString_def)
  next
    case False
    from snoc.prems have "isScalar c" by simp
    from encode_no_whitespace_head(2,3) [OF this False]
    have ne: "rev (UTF16EncodeCodePoint c) \<noteq> []"
      and h: "\<not> isWhiteSpace (hd (rev (UTF16EncodeCodePoint c)))"
      by (simp_all add: hd_rev)
    have "dropWhile isWhiteSpace (rev (UTF16EncodeCodePoint c) @ rev (CodePointsToString cps))
            = rev (UTF16EncodeCodePoint c) @ rev (CodePointsToString cps)"
      using ne h by (rule dropWhile_hd)
    then show ?thesis using False by (simp add: encode_append encode_Cons CodePointsToString_def)
  qed
qed

lemma set_trim: "set (trim s) \<subseteq> set s"
proof
  fix x assume "x \<in> set (trim s)"
  then have "x \<in> set (dropWhile isWhiteSpace (rev (dropWhile isWhiteSpace s)))"
    by (simp add: trim_def)
  then have "x \<in> set (rev (dropWhile isWhiteSpace s))" by (rule set_dropWhileD)
  then have "x \<in> set (dropWhile isWhiteSpace s)" by simp
  then show "x \<in> set s" by (rule set_dropWhileD)
qed

lemma trim_encode:
  assumes "\<forall>c \<in> set cps. isScalar c"
  shows "trim (CodePointsToString cps) = CodePointsToString (trim cps)"
proof -
  have "\<forall>c \<in> set (dropWhile isWhiteSpace cps). isScalar c"
    using assms by (auto dest: set_dropWhileD)
  from trim_end_encode [OF this] show ?thesis
    by (simp add: trim_def trim_start_encode [OF assms])
qed

lemma replace_whitespace_encode:
  "\<forall>c \<in> set cps. isScalar c \<Longrightarrow>
   replace_whitespace (CodePointsToString cps)
     = CodePointsToString (filter (\<lambda>c. \<not> isWhiteSpace c) cps)"
proof (induction cps)
  case Nil
  then show ?case by (simp add: CodePointsToString_def replace_whitespace_def)
next
  case (Cons c cps)
  then have ih: "filter (\<lambda>u. \<not> isWhiteSpace u) (CodePointsToString cps)
                   = CodePointsToString (filter (\<lambda>c. \<not> isWhiteSpace c) cps)"
    by (simp add: replace_whitespace_def)
  show ?case
  proof (cases "isWhiteSpace c")
    case True
    then have "UTF16EncodeCodePoint c = [c]" using whitespace_bmp encode_bmp by blast
    then show ?thesis using True ih by (simp add: encode_Cons replace_whitespace_def)
  next
    case False
    from Cons.prems have "isScalar c" by simp
    from encode_no_whitespace_head(4) [OF this False]
    have "filter (\<lambda>u. \<not> isWhiteSpace u) (UTF16EncodeCodePoint c) = UTF16EncodeCodePoint c"
      by simp
    then show ?thesis using False ih by (simp add: encode_Cons replace_whitespace_def)
  qed
qed


lemma toLowercase_outputs:
  "d \<in> set (toLowercase U pre x) \<Longrightarrow> \<exists>pre' c suf. c \<in> set x \<and> d \<in> set (lowercase U pre' c suf)"
proof (induction x arbitrary: pre)
  case Nil
  then show ?case by simp
next
  case (Cons c x)
  from Cons.prems have "d \<in> set (lowercase U pre c x) \<or> d \<in> set (toLowercase U (pre @ [c]) x)"
    by simp
  then show ?case
  proof
    assume "d \<in> set (lowercase U pre c x)"
    then show ?thesis by auto
  next
    assume "d \<in> set (toLowercase U (pre @ [c]) x)"
    from Cons.IH [OF this] show ?thesis by auto
  qed
qed

lemma toLowercase_fixed:
  "\<forall>d \<in> set r. \<forall>pre suf. lowercase U pre d suf = [d] \<Longrightarrow> toLowercase U pre r = r"
  by (induction r arbitrary: pre) simp_all

lemma dropWhile_none: "\<forall>x \<in> set xs. \<not> P x \<Longrightarrow> dropWhile P xs = xs"
  by (cases xs) simp_all

lemma trim_none: "\<forall>x \<in> set xs. \<not> isWhiteSpace x \<Longrightarrow> trim xs = xs"
  by (simp add: trim_def dropWhile_none)

lemma normalizeAnswer_encode:
  assumes "unicode_ok U" and "\<forall>c \<in> set cps. isScalar c"
  shows "normalizeAnswer U (CodePointsToString cps)
           = CodePointsToString (filter (\<lambda>c. Letter U c \<or> Number U c)
               (filter (\<lambda>c. \<not> isWhiteSpace c) (toLowercase U [] (trim cps))))"
proof -
  have t: "\<forall>c \<in> set (trim cps). isScalar c" using assms(2) set_trim by blast
  have l: "\<forall>d \<in> set (toLowercase U [] (trim cps)). isScalar d"
  proof
    fix d assume "d \<in> set (toLowercase U [] (trim cps))"
    from toLowercase_outputs [OF this] obtain pre' c suf where
      "c \<in> set (trim cps)" and "d \<in> set (lowercase U pre' c suf)" by blast
    with t assms(1) show "isScalar d" unfolding unicode_ok_def by blast
  qed
  then have f: "\<forall>d \<in> set (filter (\<lambda>c. \<not> isWhiteSpace c) (toLowercase U [] (trim cps))). isScalar d"
    by simp
  have "toLocaleLowerCase U (trim (CodePointsToString cps))
          = CodePointsToString (toLowercase U [] (trim cps))"
    by (simp add: toLocaleLowerCase_def trim_encode [OF assms(2)] decode_encode [OF t])
  then have "replace_whitespace (toLocaleLowerCase U (trim (CodePointsToString cps)))
          = CodePointsToString (filter (\<lambda>c. \<not> isWhiteSpace c) (toLowercase U [] (trim cps)))"
    by (simp add: replace_whitespace_encode [OF l])
  then show ?thesis
    by (simp add: normalizeAnswer_def replace_non_alnum_def decode_encode [OF f])
qed

lemma unicode_ok_fragment: "unicode_ok fragment"
proof -
  have a: "isScalar c \<and> \<not> isWhiteSpace c" if "Letter fragment c \<or> Number fragment c" for c
    using that by (auto simp: fragment_def isScalar_def isSurrogate_def isWhiteSpace_def)
  have b: "isScalar d" if "isScalar c" and "d \<in> set (lowercase fragment pre c suf)"
    for pre c suf d
    using that by (auto simp: fragment_def isScalar_def isSurrogate_def split: if_splits)
  have c: "lowercase fragment pre' d suf' = [d]"
    if "d \<in> set (lowercase fragment pre c suf)" and "Letter fragment d \<or> Number fragment d"
    for pre c suf d pre' suf'
    using that by (auto simp: fragment_def split: if_splits)
  show ?thesis unfolding unicode_ok_def using a b c by blast
qed

subsection \<open>Idempotence\<close>

text \<open>
  C9, as the code has it. On a well-formed string (16-bit code units, no unpaired
  surrogate) normalization is idempotent: normalizing the normalized string gives it
  back. The Unicode tables of the engine are only asked for the three facts of
  \<open>unicode_ok\<close>.
\<close>

theorem normalizeAnswer_idempotent:
  assumes "unicode_ok U" and "well_formed s"
  shows "normalizeAnswer U (normalizeAnswer U s) = normalizeAnswer U s"
proof -
  define cps where "cps = StringToCodePoints s"
  define r where "r = filter (\<lambda>c. Letter U c \<or> Number U c)
               (filter (\<lambda>c. \<not> isWhiteSpace c) (toLowercase U [] (trim cps)))"
  from well_formed_scalars [OF assms(2)]
  have s: "s = CodePointsToString cps" and sc: "\<forall>c \<in> set cps. isScalar c"
    by (simp_all add: cps_def)
  have first: "normalizeAnswer U s = CodePointsToString r"
    unfolding s r_def by (rule normalizeAnswer_encode [OF assms(1) sc])
  have alnum: "\<forall>d \<in> set r. Letter U d \<or> Number U d" by (simp add: r_def)
  then have rs: "\<forall>d \<in> set r. isScalar d" and rw: "\<forall>d \<in> set r. \<not> isWhiteSpace d"
    using assms(1) unfolding unicode_ok_def by blast+
  have fixed: "\<forall>d \<in> set r. \<forall>pre suf. lowercase U pre d suf = [d]"
  proof
    fix d assume d: "d \<in> set r"
    then have "d \<in> set (toLowercase U [] (trim cps))" by (simp add: r_def)
    from toLowercase_outputs [OF this] obtain pre' c suf where
      "d \<in> set (lowercase U pre' c suf)" by blast
    moreover have "Letter U d \<or> Number U d" using alnum d by blast
    ultimately show "\<forall>pre suf. lowercase U pre d suf = [d]"
      using assms(1) unfolding unicode_ok_def by blast
  qed
  have "normalizeAnswer U (CodePointsToString r)
          = CodePointsToString (filter (\<lambda>c. Letter U c \<or> Number U c)
               (filter (\<lambda>c. \<not> isWhiteSpace c) (toLowercase U [] (trim r))))"
    by (rule normalizeAnswer_encode [OF assms(1) rs])
  also have "\<dots> = CodePointsToString r"
    using alnum rw by (simp add: trim_none [OF rw] toLowercase_fixed [OF fixed])
  finally show ?thesis by (simp add: first)
qed

theorem normalizeAnswer_idempotent_witness:
  "unicode_ok fragment \<and> well_formed (str ''Run, Fast!'')
   \<and> normalizeAnswer fragment (str ''Run, Fast!'') = str ''runfast''
   \<and> normalizeAnswer fragment (normalizeAnswer fragment (str ''Run, Fast!''))
       = normalizeAnswer fragment (str ''Run, Fast!'')"
  using normalizeAnswer_idempotent [of fragment "str ''Run, Fast!''"] unicode_ok_fragment
  by (simp add: well_formed_def str_def normalizer_defs isSurrogate_def)

text \<open>
  Deleting white space after lowercasing can join two unpaired surrogates. Whatever the
  tables, as long as they have \<open>U+10400\<close> and \<open>U+10428\<close> as letters, the second the
  lowercase of the first, and leave surrogates and the space alone:
\<close>

lemma normalizeAnswer_joins_surrogates:
  assumes "lowercase U [] 0xD801 [0x20, 0xDC00] = [0xD801]"
    and "lowercase U [0xD801] 0x20 [0xDC00] = [0x20]"
    and "lowercase U [0xD801, 0x20] 0xDC00 [] = [0xDC00]"
    and "lowercase U [] 0x10400 [] = [0x10428]"
    and "Letter U 0x10400" and "Letter U 0x10428"
  shows "normalizeAnswer U [0xD801, 0x20, 0xDC00] = [0xD801, 0xDC00]"
    and "normalizeAnswer U (normalizeAnswer U [0xD801, 0x20, 0xDC00]) = [0xD801, 0xDC28]"
proof -
  show a: "normalizeAnswer U [0xD801, 0x20, 0xDC00] = [0xD801, 0xDC00]"
    using assms(1,2,3,5)
    by (simp add: normalizeAnswer_def replace_non_alnum_def replace_whitespace_def
        toLocaleLowerCase_def trim_def CodePointsToString_def UTF16EncodeCodePoint_def
        isWhiteSpace_def isLeadingSurrogate_def isTrailingSurrogate_def)
  show "normalizeAnswer U (normalizeAnswer U [0xD801, 0x20, 0xDC00]) = [0xD801, 0xDC28]"
    unfolding a using assms(4,6)
    by (simp add: normalizeAnswer_def replace_non_alnum_def replace_whitespace_def
        toLocaleLowerCase_def trim_def CodePointsToString_def UTF16EncodeCodePoint_def
        isWhiteSpace_def isLeadingSurrogate_def isTrailingSurrogate_def)
qed

text \<open>
  C9 as stated, for every string, fails. In the string \<open>"\uD801 \uDC00"\<close> a space
  stands between two unpaired surrogates. Lowercasing, which comes first, sees no letter;
  deleting the space then joins the surrogates into the pair of \<open>U+10400\<close>, the Deseret
  capital letter long I, which the last step keeps as a letter. Normalizing the result
  once more lowercases it to \<open>U+10428\<close>.
\<close>

theorem normalizeAnswer_idempotent_counterexample:
  "normalizeAnswer fragment [0xD801, 0x20, 0xDC00] = [0xD801, 0xDC00]
   \<and> normalizeAnswer fragment (normalizeAnswer fragment [0xD801, 0x20, 0xDC00]) = [0xD801, 0xDC28]
   \<and> normalizeAnswer fragment (normalizeAnswer fragment [0xD801, 0x20, 0xDC00])
       \<noteq> normalizeAnswer fragment [0xD801, 0x20, 0xDC00]"
  by (simp add: normalizer_defs)

end
